theory Spec2Isabelle
  imports Complex_Main "HOL-Library.Word"
begin

section \<open>Strings\<close>

text \<open>
  A JavaScript string is a sequence of 16-bit code units; \<open>charCodeAt\<close> reads one of
  them. \<open>str\<close> writes an ASCII literal of the source as such a sequence.
\<close>

type_synonym jsstring = "16 word list"

definition str :: "string \<Rightarrow> jsstring" where
  "str s = map of_char s"

section \<open>Sanitizer\<close>

text \<open>
  \<^verbatim>\<open>
  const sanitizeXML = (xmlString: string): string => {
    if (xmlString.charCodeAt(0) === 0xfeff) {
      xmlString = xmlString.slice(1);
    }
    // Remove problematic $ characters from tag names
    return xmlString.replace(/<(\/?)\w+\$/g, "<$1");
  };
  \<close>
  The class \<open>\w\<close> of a regular expression without flags \<open>u\<close> or \<open>i\<close> is
  \<open>[A-Za-z0-9_]\<close>.
\<close>

definition isWordChar :: "16 word \<Rightarrow> bool" where
  "isWordChar c \<longleftrightarrow>
     (0x30 \<le> c \<and> c \<le> 0x39) \<or> (0x41 \<le> c \<and> c \<le> 0x5A) \<or> c = 0x5F \<or> (0x61 \<le> c \<and> c \<le> 0x7A)"

text \<open>
  One attempt of the pattern \<^verbatim>\<open><(\/?)\w+\$\<close> at the start of a text: the captured group (the
  optional slash) and the text after the match. The attempt is deterministic: the slash is
  taken when it is there (without it the next character would have to be a word character),
  and \<open>\w+\<close> takes the whole run of word characters (a shorter run is followed by a word
  character, not by the dollar).
\<close>

definition matchTag :: "jsstring \<Rightarrow> (jsstring \<times> jsstring) option" where
  "matchTag s =
     (case s of
        [] \<Rightarrow> None
      | c # t \<Rightarrow>
          if c \<noteq> 0x3C then None
          else
            let (g, u) = (case t of [] \<Rightarrow> ([], t) | x # t' \<Rightarrow> if x = 0x2F then ([x], t') else ([], t))
            in (case dropWhile isWordChar u of
                  [] \<Rightarrow> None
                | d # rest \<Rightarrow> if takeWhile isWordChar u \<noteq> [] \<and> d = 0x24 then Some (g, rest) else None))"

lemma matchTag_shorter: "matchTag s = Some (g, rest) \<Longrightarrow> length rest < length s"
proof -
  have drop: "length rest < Suc (length u)" if "dropWhile isWordChar u = d # rest" for u d
  proof -
    have "length (dropWhile isWordChar u) \<le> length u"
      by (rule length_dropWhile_le)
    with that show ?thesis by simp
  qed
  assume "matchTag s = Some (g, rest)"
  then show ?thesis
    by (auto simp: matchTag_def split: list.splits if_splits dest!: drop)
qed

text \<open>
  \<open>replace\<close> with the flag \<open>g\<close>: the text is scanned from the left; a match is replaced by
  \<open><\<close> and the captured group and the scan goes on after the match; where the pattern
  does not match, the character is kept and the scan moves one character on.
\<close>

function replaceTags :: "jsstring \<Rightarrow> jsstring" where
  "replaceTags [] = []"
| "replaceTags (c # cs) =
     (case matchTag (c # cs) of
        Some (g, rest) \<Rightarrow> 0x3C # g @ replaceTags rest
      | None \<Rightarrow> c # replaceTags cs)"
  by pat_completeness auto
termination
  by (relation "measure length") (auto dest: matchTag_shorter)

definition sanitizeXML :: "jsstring \<Rightarrow> jsstring" where
  "sanitizeXML xmlString =
     replaceTags (case xmlString of
                    [] \<Rightarrow> xmlString
                  | c # t \<Rightarrow> if c = 0xFEFF then t else xmlString)"

section \<open>Document tree\<close>

text \<open>
  The parsed document, as the DOM shows it to the program: an element has a tag name and
  child nodes; a child is an element, a text node (character data, also a CDATA section),
  or another node (a comment, a processing instruction), which is neither in
  \<open>children\<close> nor part of \<open>textContent\<close>.
\<close>

datatype node = Element jsstring "node list" | Text jsstring | Other

fun tagName :: "node \<Rightarrow> jsstring" where
  "tagName (Element tag cs) = tag"
| "tagName (Text s) = []"
| "tagName Other = []"

fun isElement :: "node \<Rightarrow> bool" where
  "isElement (Element tag cs) = True"
| "isElement (Text s) = False"
| "isElement Other = False"

text \<open>\<open>textContent\<close> of an element: the data of its descendant text nodes, in document order.\<close>

fun textContent :: "node \<Rightarrow> jsstring" where
  "textContent (Element tag cs) = concat (map textContent cs)"
| "textContent (Text s) = s"
| "textContent Other = []"

text \<open>The elements below a node, in document order (the node itself is not one of them).\<close>

fun descendants :: "node \<Rightarrow> node list" where
  "descendants (Element tag cs) = concat (map (\<lambda>c. if isElement c then c # descendants c else []) cs)"
| "descendants (Text s) = []"
| "descendants Other = []"

text \<open>
  \<open>element.getElementsByTagName(name)\<close>: the descendant elements with that tag name, in
  document order. The program calls it with constant names only (never \<open>"*"\<close>).
\<close>

definition getElementsByTagName :: "node \<Rightarrow> jsstring \<Rightarrow> node list" where
  "getElementsByTagName e name = filter (\<lambda>n. tagName n = name) (descendants e)"

text \<open>
  \<open>e.getElementsByTagName(name)[0]?.textContent\<close>: \<open>None\<close> is JavaScript's
  \<open>undefined\<close>, the value when no descendant has that tag name.
\<close>

definition firstText :: "node \<Rightarrow> jsstring \<Rightarrow> jsstring option" where
  "firstText e name = (case getElementsByTagName e name of [] \<Rightarrow> None | x # xs \<Rightarrow> Some (textContent x))"

text \<open>\<open>v || ""\<close>: the empty string when \<open>v\<close> is \<open>undefined\<close> or the empty string.\<close>

definition orEmpty :: "jsstring option \<Rightarrow> jsstring" where
  "orEmpty v = (case v of None \<Rightarrow> [] | Some s \<Rightarrow> if s = [] then [] else s)"

section \<open>Tree extractor\<close>

text \<open>
  The interface \<open>Surgery\<close>: seven properties, all of type \<open>string\<close>. The field names are
  the property names of the source, with an underscore for the space and without the
  diacritics (\<open>"Data Realizacao"\<close>, \<open>"Aviso Cirurgia"\<close>, \<open>Cirurgia\<close>,
  \<open>"Codigo Paciente"\<close>, \<open>"Nome Paciente"\<close>, \<open>Anestesista\<close>, \<open>"Tipo Anestesia"\<close>).
\<close>

record surgery =
  Data_Realizacao :: jsstring
  Aviso_Cirurgia :: jsstring
  Cirurgia :: jsstring
  Codigo_Paciente :: jsstring
  Nome_Paciente :: jsstring
  Anestesista :: jsstring
  Tipo_Anestesia :: jsstring

text \<open>
  What the program throws: the engine's \<open>TypeError\<close> for reading a property of
  \<open>undefined\<close>; \<open>new Error("XML parsing error: " + text)\<close>; and
  \<open>new Error("Erro durante o processamento do XML: " + err.message)\<close>, which wraps the
  error caught.
\<close>

datatype error = TypeError | XMLParsingError jsstring | ProcessingError error

text \<open>
  The object literal of lines 70 to 89, for a date, a patient group, a surgery group and
  the value of \<open>anesthesiaType\<close>.
\<close>

definition surgeryRecord :: "jsstring \<Rightarrow> node \<Rightarrow> node \<Rightarrow> jsstring option \<Rightarrow> surgery" where
  "surgeryRecord date patientElement surgeryElement anesthesiaType =
     \<lparr> Data_Realizacao = date,
       Aviso_Cirurgia = orEmpty (firstText patientElement (str ''CD_AVISO_CIRURGIA'')),
       Cirurgia = orEmpty (firstText surgeryElement (str ''DECODE_NVL_CIR_AVI_DS_NPADRONI'')),
       Codigo_Paciente = orEmpty (firstText patientElement (str ''CD_PACIENTE'')),
       Nome_Paciente = orEmpty (firstText patientElement (str ''NM_PACIENTE'')),
       Anestesista = orEmpty (firstText surgeryElement (str ''CF_NM_ANESTESISTA'')),
       Tipo_Anestesia = orEmpty anesthesiaType \<rparr>"

text \<open>
  The body of the loop over \<open>gSurgeryElements\<close> (lines 62 to 91). The test
  \<open>if (surgeryElement)\<close> holds for every member of the collection.
  \<^verbatim>\<open>
  const anesthesiaType = surgeryElement.getElementsByTagName("DS_TIP_ANEST")[0]?.textContent;
  if (anesthesiaType !== "LOCAL") { surgeries.push({ ... "Tipo Anestesia": anesthesiaType || "" }); }
  \<close>
\<close>

definition pushSurgery :: "jsstring \<Rightarrow> node \<Rightarrow> node \<Rightarrow> surgery list \<Rightarrow> surgery list" where
  "pushSurgery date patientElement surgeryElement surgeries =
     (let anesthesiaType = firstText surgeryElement (str ''DS_TIP_ANEST'')
      in if anesthesiaType \<noteq> Some (str ''LOCAL'')
         then surgeries @ [surgeryRecord date patientElement surgeryElement anesthesiaType]
         else surgeries)"

text \<open>The loop \<open>for (let h = 0; h < gSurgeryElements.length; h++)\<close>.\<close>

fun surgeryLoop :: "jsstring \<Rightarrow> node \<Rightarrow> node list \<Rightarrow> surgery list \<Rightarrow> surgery list" where
  "surgeryLoop date patientElement [] surgeries = surgeries"
| "surgeryLoop date patientElement (g # gs) surgeries =
     surgeryLoop date patientElement gs (pushSurgery date patientElement g surgeries)"

text \<open>
  The loop \<open>for (let j = 0; j < patientElements.length; j++)\<close>. When a patient group has no
  \<open>LIST_G_CIRURGIA\<close> below it, \<open>surgeryElement\<close> is \<open>undefined\<close> and
  \<open>surgeryElement.getElementsByTagName\<close> throws a \<open>TypeError\<close>; the records pushed so
  far stay in \<open>surgeries\<close>. The result is the array and the error thrown, if any.
\<close>

fun patientLoop :: "jsstring \<Rightarrow> node list \<Rightarrow> surgery list \<Rightarrow> surgery list \<times> error option" where
  "patientLoop date [] surgeries = (surgeries, None)"
| "patientLoop date (patientElement # ps) surgeries =
     (case getElementsByTagName patientElement (str ''LIST_G_CIRURGIA'') of
        [] \<Rightarrow> (surgeries, Some TypeError)
      | surgeryElement # others \<Rightarrow>
          patientLoop date ps
            (surgeryLoop date patientElement
               (getElementsByTagName surgeryElement (str ''G_CIRURGIA'')) surgeries))"

text \<open>
  \<open>processElement\<close> (lines 48 to 99): the scan of a date-realization group, then the
  recursion into \<open>element.children\<close>, the child elements.
\<close>

fun processElement :: "node \<Rightarrow> surgery list \<Rightarrow> surgery list \<times> error option"
  and childrenLoop :: "node list \<Rightarrow> surgery list \<Rightarrow> surgery list \<times> error option" where
  "processElement (Element tag cs) surgeries =
     (case (if tag = str ''G_DT_REALIZACAO''
            then patientLoop (orEmpty (firstText (Element tag cs) (str ''DT_REALIZACAO'')))
                   (getElementsByTagName (Element tag cs) (str ''G_NM_PACIENTE'')) surgeries
            else (surgeries, None)) of
        (surgeries', Some err) \<Rightarrow> (surgeries', Some err)
      | (surgeries', None) \<Rightarrow> childrenLoop cs surgeries')"
| "processElement (Text s) surgeries = (surgeries, None)"
| "processElement Other surgeries = (surgeries, None)"
| "childrenLoop [] surgeries = (surgeries, None)"
| "childrenLoop (c # cs) surgeries =
     (if isElement c
      then (case processElement c surgeries of
              (surgeries', Some err) \<Rightarrow> (surgeries', Some err)
            | (surgeries', None) \<Rightarrow> childrenLoop cs surgeries')
      else childrenLoop cs surgeries)"

text \<open>
  \<open>parseXML\<close>. The markup parser is the browser's \<open>DOMParser\<close>, a parameter here: it
  maps the sanitized text to the document element of the document it returns.
  \<open>xmlDoc.getElementsByTagName\<close> ranges over every element of the document, the document
  element included.

  The file holds two components. In the first (the monthly converter, lines 35 to 111) the
  \<open>catch\<close> throws a new error:
  \<^verbatim>\<open>
  try { processElement(xmlDoc.documentElement); }
  catch (err) { console.error(...); throw new Error(`Erro durante o processamento do XML: ${err.message}`); }
  return surgeries;
  \<close>
\<close>

definition documentElementsByTagName :: "node \<Rightarrow> jsstring \<Rightarrow> node list" where
  "documentElementsByTagName documentElement name =
     filter (\<lambda>n. tagName n = name) (documentElement # descendants documentElement)"

definition parseXML :: "(jsstring \<Rightarrow> node) \<Rightarrow> jsstring \<Rightarrow> error + surgery list" where
  "parseXML DOMParser xmlString =
     (let documentElement = DOMParser (sanitizeXML xmlString)
      in case documentElementsByTagName documentElement (str ''parsererror'') of
           p # ps \<Rightarrow> Inl (XMLParsingError (textContent p))
         | [] \<Rightarrow>
            (case processElement documentElement [] of
               (surgeries, Some err) \<Rightarrow> Inl (ProcessingError err)
             | (surgeries, None) \<Rightarrow> Inr surgeries))"

text \<open>
  In the second component (the single-workbook converter, lines 296 to 372) the \<open>catch\<close>
  stores a message with \<open>setError\<close> and the function goes on to \<open>return surgeries\<close>:
  \<^verbatim>\<open>
  try { processElement(xmlDoc.documentElement); }
  catch (err) { console.error(...); setError(`Erro durante o processamento do XML: ${err.message}`); }
  return surgeries;
  \<close>
  The result is the array returned and the error whose message was stored, if any.
\<close>

definition parseXML_single ::
  "(jsstring \<Rightarrow> node) \<Rightarrow> jsstring \<Rightarrow> error + surgery list \<times> error option" where
  "parseXML_single DOMParser xmlString =
     (let documentElement = DOMParser (sanitizeXML xmlString)
      in case documentElementsByTagName documentElement (str ''parsererror'') of
           p # ps \<Rightarrow> Inl (XMLParsingError (textContent p))
         | [] \<Rightarrow>
            (case processElement documentElement [] of
               (surgeries, Some err) \<Rightarrow> Inr (surgeries, Some (ProcessingError err))
             | (surgeries, None) \<Rightarrow> Inr (surgeries, None)))"

section \<open>Numbers\<close>

text \<open>
  A JavaScript Number, as far as the program tells one from another: not-a-number, the two
  infinities, or a finite value. Finite values are taken at their exact rational value (the
  program only passes them to the \<open>Date\<close> constructor, which truncates each to an integer),
  so the rounding of a literal to the nearest double is not modelled.
\<close>

datatype number = NaN | PosInfinity | NegInfinity | Finite rat

text \<open>\<open>a + b\<close> and \<open>a - b\<close> on Numbers.\<close>

fun add :: "number \<Rightarrow> number \<Rightarrow> number" where
  "add (Finite a) (Finite b) = Finite (a + b)"
| "add NaN b = NaN"
| "add a NaN = NaN"
| "add PosInfinity NegInfinity = NaN"
| "add NegInfinity PosInfinity = NaN"
| "add PosInfinity b = PosInfinity"
| "add NegInfinity b = NegInfinity"
| "add a PosInfinity = PosInfinity"
| "add a NegInfinity = NegInfinity"

fun negate :: "number \<Rightarrow> number" where
  "negate NaN = NaN"
| "negate PosInfinity = NegInfinity"
| "negate NegInfinity = PosInfinity"
| "negate (Finite a) = Finite (- a)"

definition sub :: "number \<Rightarrow> number \<Rightarrow> number" where
  "sub a b = add a (negate b)"

text \<open>\<open>ToIntegerOrInfinity\<close> of a finite value: truncation towards zero.\<close>

definition truncate :: "rat \<Rightarrow> int" where
  "truncate q = (if 0 \<le> q then \<lfloor>q\<rfloor> else \<lceil>q\<rceil>)"

section \<open>The conversion of a string to a Number\<close>

text \<open>
  \<open>Number(string)\<close> is the conversion \<open>StringToNumber\<close> of ECMAScript: white space and
  line terminators are trimmed at both ends; the empty text is 0; otherwise the text is a
  binary, octal or hexadecimal integer literal (\<open>0b\<close>, \<open>0o\<close>, \<open>0x\<close>, no sign), or an
  optional sign followed by \<open>Infinity\<close> or by a decimal literal with an optional fraction
  and an optional exponent; any other text is not-a-number.
\<close>

definition isStrWhiteSpaceChar :: "16 word \<Rightarrow> bool" where
  "isStrWhiteSpaceChar c \<longleftrightarrow>
     c \<in> {0x09, 0x0A, 0x0B, 0x0C, 0x0D, 0x20, 0xA0, 0x1680, 0x2028, 0x2029, 0x202F, 0x205F, 0x3000, 0xFEFF}
     \<or> (0x2000 \<le> c \<and> c \<le> 0x200A)"

definition trimString :: "jsstring \<Rightarrow> jsstring" where
  "trimString s = rev (dropWhile isStrWhiteSpaceChar (rev (dropWhile isStrWhiteSpaceChar s)))"

definition isDecimalDigit :: "16 word \<Rightarrow> bool" where
  "isDecimalDigit c \<longleftrightarrow> 0x30 \<le> c \<and> c \<le> 0x39"

text \<open>The value of a digit of a base up to 16, if the character is one.\<close>

definition digitValue :: "nat \<Rightarrow> 16 word \<Rightarrow> nat option" where
  "digitValue base c =
     (let v = (if 0x30 \<le> c \<and> c \<le> 0x39 then Some (unat c - 48)
               else if 0x61 \<le> c \<and> c \<le> 0x66 then Some (unat c - 87)
               else if 0x41 \<le> c \<and> c \<le> 0x46 then Some (unat c - 55)
               else None)
      in case v of None \<Rightarrow> None | Some n \<Rightarrow> if n < base then Some n else None)"

fun digitsValue :: "nat \<Rightarrow> nat \<Rightarrow> jsstring \<Rightarrow> nat option" where
  "digitsValue base acc [] = Some acc"
| "digitsValue base acc (c # cs) =
     (case digitValue base c of None \<Rightarrow> None | Some n \<Rightarrow> digitsValue base (base * acc + n) cs)"

text \<open>One or more digits of the base: their value.\<close>

definition digits :: "nat \<Rightarrow> jsstring \<Rightarrow> nat option" where
  "digits base s = (if s = [] then None else digitsValue base 0 s)"

definition NonDecimalIntegerLiteral :: "jsstring \<Rightarrow> nat option" where
  "NonDecimalIntegerLiteral s =
     (case s of
        z # x # ds \<Rightarrow>
          if z \<noteq> 0x30 then None
          else if x = 0x62 \<or> x = 0x42 then digits 2 ds
          else if x = 0x6F \<or> x = 0x4F then digits 8 ds
          else if x = 0x78 \<or> x = 0x58 then digits 16 ds
          else None
      | _ \<Rightarrow> None)"

text \<open>An optional sign: whether it is a minus, and the text after it.\<close>

definition signOf :: "jsstring \<Rightarrow> bool \<times> jsstring" where
  "signOf s =
     (case s of
        [] \<Rightarrow> (False, s)
      | c # t \<Rightarrow> if c = 0x2B then (False, t) else if c = 0x2D then (True, t) else (False, s))"

text \<open>The exponent part: absent (the value is 0), or \<open>e\<close> or \<open>E\<close> and a signed integer.\<close>

definition ExponentPart :: "jsstring \<Rightarrow> int option" where
  "ExponentPart s =
     (case s of
        [] \<Rightarrow> Some 0
      | c # t \<Rightarrow>
          if c = 0x65 \<or> c = 0x45
          then (case signOf t of
                  (negative, ds) \<Rightarrow>
                    (case digits 10 ds of
                       None \<Rightarrow> None
                     | Some n \<Rightarrow> Some (if negative then - int n else int n)))
          else None)"

definition scale10 :: "rat \<Rightarrow> int \<Rightarrow> rat" where
  "scale10 q e = (if 0 \<le> e then q * 10 ^ nat e else q / 10 ^ nat (- e))"

text \<open>
  An unsigned decimal literal: digits, an optional point and digits, an optional exponent,
  with a digit before or after the point.
\<close>

definition StrUnsignedDecimalLiteral :: "jsstring \<Rightarrow> rat option" where
  "StrUnsignedDecimalLiteral s =
     (let ip = takeWhile isDecimalDigit s;
          r = dropWhile isDecimalDigit s;
          (fp, r') = (case r of
                        [] \<Rightarrow> ([], r)
                      | c # t \<Rightarrow> if c = 0x2E then (takeWhile isDecimalDigit t, dropWhile isDecimalDigit t)
                                 else ([], r))
      in if ip = [] \<and> fp = [] then None
         else (case (digitsValue 10 0 (ip @ fp), ExponentPart r') of
                 (Some n, Some e) \<Rightarrow> Some (scale10 (of_nat n) (e - int (length fp)))
               | _ \<Rightarrow> None))"

definition StrDecimalLiteral :: "jsstring \<Rightarrow> number option" where
  "StrDecimalLiteral s =
     (case signOf s of
        (negative, u) \<Rightarrow>
          if u = str ''Infinity'' then Some (if negative then NegInfinity else PosInfinity)
          else (case StrUnsignedDecimalLiteral u of
                  None \<Rightarrow> None
                | Some q \<Rightarrow> Some (Finite (if negative then - q else q))))"

definition Number :: "jsstring \<Rightarrow> number" where
  "Number s =
     (let t = trimString s
      in if t = [] then Finite 0
         else (case NonDecimalIntegerLiteral t of
                 Some n \<Rightarrow> Finite (of_nat n)
               | None \<Rightarrow> (case StrDecimalLiteral t of Some v \<Rightarrow> v | None \<Rightarrow> NaN)))"

section \<open>Dates\<close>

text \<open>
  The day and year arithmetic of ECMAScript's Date objects. A time value is a number of
  milliseconds since 1 January 1970; \<open>None\<close> is the time value \<open>NaN\<close> of an invalid Date.
  Local time is taken to be UTC: the program builds a Date from local fields and reads
  local fields back, and a fixed offset cancels out.
\<close>

definition msPerDay :: int where
  "msPerDay = 86400000"

definition Day :: "int \<Rightarrow> int" where
  "Day t = t div msPerDay"

definition DayFromYear :: "int \<Rightarrow> int" where
  "DayFromYear y = 365 * (y - 1970) + (y - 1969) div 4 - (y - 1901) div 100 + (y - 1601) div 400"

definition DaysInYear :: "int \<Rightarrow> int" where
  "DaysInYear y = (if y mod 4 \<noteq> 0 then 365 else if y mod 100 \<noteq> 0 then 366 else if y mod 400 \<noteq> 0 then 365 else 366)"

text \<open>
  A year starts a year's length after the year before. The searches of \<open>YearFromTime\<close>
  below end because of it.
\<close>

lemma div_add1:
  fixes a k :: int
  assumes k: "0 < k"
  shows "(a + 1) div k = a div k + (if (a + 1) mod k = 0 then 1 else 0)"
proof -
  define q r where "q = a div k" and "r = a mod k"
  have a: "a = k * q + r" and r: "0 \<le> r" "r < k"
    using k by (simp_all add: q_def r_def)
  show ?thesis
  proof (cases "r + 1 = k")
    case True
    have "a + 1 = k * (q + 1) + 0"
      using a True by (simp add: algebra_simps)
    from int_div_pos_eq [OF this] int_mod_pos_eq [OF this] k show ?thesis
      by (simp add: q_def)
  next
    case False
    have "a + 1 = k * q + (r + 1)"
      using a by simp
    from int_div_pos_eq [OF this] int_mod_pos_eq [OF this] r False show ?thesis
      by (simp add: q_def)
  qed
qed

lemma mod_shift: "(y - k * c) mod k = y mod (k::int)"
  by (metis mod_mult_self1 diff_conv_add_uminus mult_minus_right mult.commute)

lemma shifts:
  "(y - 1968) mod 4 = y mod (4::int)" "(y - 1900) mod 100 = y mod (100::int)"
  "(y - 1600) mod 400 = y mod (400::int)"
  using mod_shift [of y 4 492] mod_shift [of y 100 19] mod_shift [of y 400 4] by simp_all

lemma leap_chain: "y mod 400 = 0 \<Longrightarrow> y mod 100 = 0" "y mod 100 = 0 \<Longrightarrow> y mod 4 = 0" for y :: int
proof -
  have "(100::int) dvd 400" and "(4::int) dvd 100" by simp_all
  then show "y mod 400 = 0 \<Longrightarrow> y mod 100 = 0" and "y mod 100 = 0 \<Longrightarrow> y mod 4 = 0"
    by (auto simp only: mod_eq_0_iff_dvd intro: dvd_trans)
qed

lemma DayFromYear_Suc: "DayFromYear (y + 1) = DayFromYear y + DaysInYear y"
proof -
  define A B C where "A = (y - 1969) div 4" and "B = (y - 1901) div 100" and "C = (y - 1601) div 400"
  define i4 i100 i400 :: int where "i4 = (if y mod 4 = 0 then 1 else 0)"
    and "i100 = (if y mod 100 = 0 then 1 else 0)" and "i400 = (if y mod 400 = 0 then 1 else 0)"
  have h4: "(y - 1968) div 4 = A + i4"
    using div_add1 [of 4 "y - 1969"] by (simp add: shifts A_def i4_def)
  have h100: "(y - 1900) div 100 = B + i100"
    using div_add1 [of 100 "y - 1901"] by (simp add: shifts B_def i100_def)
  have h400: "(y - 1600) div 400 = C + i400"
    using div_add1 [of 400 "y - 1601"] by (simp add: shifts C_def i400_def)
  have now: "DayFromYear y = 365 * (y - 1970) + A - B + C"
    by (simp only: DayFromYear_def A_def B_def C_def)
  have "DayFromYear (y + 1) = 365 * (y + 1 - 1970) + (y + 1 - 1969) div 4 - (y + 1 - 1901) div 100 + (y + 1 - 1601) div 400"
    by (simp only: DayFromYear_def)
  also have "y + 1 - 1969 = y - 1968" by simp
  also have "y + 1 - 1901 = y - 1900" by simp
  also have "y + 1 - 1601 = y - 1600" by simp
  finally have next_year: "DayFromYear (y + 1) = 365 * (y + 1 - 1970) + (A + i4) - (B + i100) + (C + i400)"
    by (simp only: h4 h100 h400)
  have days: "DaysInYear y = 365 + i4 - i100 + i400"
    using leap_chain [of y] by (auto simp: DaysInYear_def i4_def i100_def i400_def)
  show ?thesis
    unfolding next_year now days by (simp only: algebra_simps)
qed

lemma DaysInYear_bounds: "365 \<le> DaysInYear y" "DaysInYear y \<le> 366"
  by (simp_all add: DaysInYear_def)

lemma DayFromYear_less: "DayFromYear (y - 1) < DayFromYear y"
  using DayFromYear_Suc [of "y - 1"] DaysInYear_bounds(1) [of "y - 1"] by simp

text \<open>
  \<open>YearFromTime(t)\<close> is the largest year \<open>y\<close> with \<open>DayFromYear y \<le> Day t\<close>. It is found
  from an estimate, stepping down while the year starts after the day and then up while the
  next year does not.
\<close>

function yearDown :: "int \<Rightarrow> int \<Rightarrow> int" where
  "yearDown y d = (if d < DayFromYear y then yearDown (y - 1) d else y)"
  by pat_completeness auto
termination
proof (relation "measure (\<lambda>(y, d). nat (DayFromYear y - d))")
  fix y d :: int
  assume "d < DayFromYear y"
  with DayFromYear_less [of y] show "((y - 1, d), (y, d)) \<in> measure (\<lambda>(y, d). nat (DayFromYear y - d))"
    by simp
qed simp

function yearUp :: "int \<Rightarrow> int \<Rightarrow> int" where
  "yearUp y d = (if DayFromYear (y + 1) \<le> d then yearUp (y + 1) d else y)"
  by pat_completeness auto
termination
proof (relation "measure (\<lambda>(y, d). nat (d + 1 - DayFromYear (y + 1)))")
  fix y d :: int
  assume "DayFromYear (y + 1) \<le> d"
  with DayFromYear_less [of "y + 1 + 1"]
  show "((y + 1, d), (y, d)) \<in> measure (\<lambda>(y, d). nat (d + 1 - DayFromYear (y + 1)))"
    by (simp add: add.commute)
qed simp

definition YearFromTime :: "int \<Rightarrow> int" where
  "YearFromTime t = yearUp (yearDown (1970 + Day t div 365) (Day t)) (Day t)"

definition InLeapYear :: "int \<Rightarrow> int" where
  "InLeapYear t = (if DaysInYear (YearFromTime t) = 366 then 1 else 0)"

definition DayWithinYear :: "int \<Rightarrow> int" where
  "DayWithinYear t = Day t - DayFromYear (YearFromTime t)"

definition MonthFromTime :: "int \<Rightarrow> int" where
  "MonthFromTime t =
     (let d = DayWithinYear t; l = InLeapYear t
      in if d < 31 then 0
         else if d < 59 + l then 1
         else if d < 90 + l then 2
         else if d < 120 + l then 3
         else if d < 151 + l then 4
         else if d < 181 + l then 5
         else if d < 212 + l then 6
         else if d < 243 + l then 7
         else if d < 273 + l then 8
         else if d < 304 + l then 9
         else if d < 334 + l then 10
         else 11)"

text \<open>
  \<open>MakeDay(year, month, date)\<close>: the day number of the first day of month
  \<open>month mod 12\<close> of year \<open>year + month div 12\<close>, plus \<open>date - 1\<close>; \<open>NaN\<close> when an
  argument is not finite.
\<close>

definition monthStart :: "int \<Rightarrow> int \<Rightarrow> int" where
  "monthStart ym mn =
     (let l = (if DaysInYear ym = 366 then 1 else 0)
      in DayFromYear ym +
         (if mn = 0 then 0
          else if mn = 1 then 31
          else if mn = 2 then 59 + l
          else if mn = 3 then 90 + l
          else if mn = 4 then 120 + l
          else if mn = 5 then 151 + l
          else if mn = 6 then 181 + l
          else if mn = 7 then 212 + l
          else if mn = 8 then 243 + l
          else if mn = 9 then 273 + l
          else if mn = 10 then 304 + l
          else 334 + l))"

definition MakeDay :: "number \<Rightarrow> number \<Rightarrow> number \<Rightarrow> int option" where
  "MakeDay year month date =
     (case (year, month, date) of
        (Finite y, Finite m, Finite dt) \<Rightarrow>
          Some (monthStart (truncate y + truncate m div 12) (truncate m mod 12) + truncate dt - 1)
      | _ \<Rightarrow> None)"

definition MakeDate :: "int \<Rightarrow> int \<Rightarrow> int" where
  "MakeDate day time = day * msPerDay + time"

definition TimeClip :: "int \<Rightarrow> int option" where
  "TimeClip t = (if \<bar>t\<bar> > 8640000000000000 then None else Some t)"

text \<open>
  \<open>new Date(year, month, day)\<close>: a year whose integer part is from 0 to 99 counts from 1900.
\<close>

definition newDate :: "number \<Rightarrow> number \<Rightarrow> number \<Rightarrow> int option" where
  "newDate year month day =
     (let yr = (case year of
                  Finite y \<Rightarrow> if 0 \<le> truncate y \<and> truncate y \<le> 99 then Finite (of_int (1900 + truncate y)) else year
                | _ \<Rightarrow> year)
      in case MakeDay yr month day of
           None \<Rightarrow> None
         | Some d \<Rightarrow> TimeClip (MakeDate d 0))"

definition getFullYear :: "int option \<Rightarrow> int option" where
  "getFullYear date = map_option YearFromTime date"

definition getMonth :: "int option \<Rightarrow> int option" where
  "getMonth date = map_option MonthFromTime date"

section \<open>Date grouper\<close>

text \<open>\<open>s.split(separator)\<close> for a separator of one character.\<close>

fun split :: "16 word \<Rightarrow> jsstring \<Rightarrow> jsstring list" where
  "split sep [] = [[]]"
| "split sep (c # cs) =
     (if c = sep then [] # split sep cs
      else (case split sep cs of [] \<Rightarrow> [[c]] | x # xs \<Rightarrow> (c # x) # xs))"

text \<open>
  \<^verbatim>\<open>
  const parseBrazilianDate = (dateString: string): Date => {
    const [day, month, year] = dateString.split("/").map(Number);
    return new Date(2000 + year, month - 1, day);
  };
  \<close>
  A variable of the pattern without an element is \<open>undefined\<close>; in the sum, in the
  difference and as an argument of \<open>Date\<close> it converts to \<open>NaN\<close>.
\<close>

definition element :: "number list \<Rightarrow> nat \<Rightarrow> number" where
  "element xs i = (if i < length xs then xs ! i else NaN)"

definition parseBrazilianDate :: "jsstring \<Rightarrow> int option" where
  "parseBrazilianDate dateString =
     (let parts = map Number (split 0x2F dateString);
          day = element parts 0; month = element parts 1; year = element parts 2
      in newDate (add (Finite 2000) year) (sub month (Finite 1)) day)"

text \<open>The text of a Number that is an integer or \<open>NaN\<close>.\<close>

function decimal :: "nat \<Rightarrow> jsstring" where
  "decimal n = (if n < 10 then [0x30 + of_nat n] else decimal (n div 10) @ [0x30 + of_nat (n mod 10)])"
  by pat_completeness auto
termination
  by (relation "measure id") auto

definition toString :: "int option \<Rightarrow> jsstring" where
  "toString v =
     (case v of
        None \<Rightarrow> str ''NaN''
      | Some n \<Rightarrow> if n < 0 then 0x2D # decimal (nat (- n)) else decimal (nat n))"

text \<open>\<open>s.padStart(targetLength, fillString)\<close>.\<close>

definition padStart :: "nat \<Rightarrow> jsstring \<Rightarrow> jsstring \<Rightarrow> jsstring" where
  "padStart targetLength fillString s =
     (if targetLength \<le> length s \<or> fillString = [] then s
      else take (targetLength - length s) (concat (replicate (targetLength - length s) fillString)) @ s)"

text \<open>
  The key of a record, from its date (lines 122 to 125):
  \<^verbatim>\<open>
  const date = parseBrazilianDate(surgery["Data Realizacao"]);
  const monthKey = `${date.getFullYear()}-${(date.getMonth() + 1).toString().padStart(2, "0")}`;
  \<close>
\<close>

definition monthKey :: "jsstring \<Rightarrow> jsstring" where
  "monthKey dateString =
     (let date = parseBrazilianDate dateString
      in toString (getFullYear date) @ str ''-'' @
         padStart 2 (str ''0'') (toString (map_option (\<lambda>m. m + 1) (getMonth date))))"

text \<open>
  \<open>groupSurgeriesByMonth\<close> (lines 118 to 132):
  \<^verbatim>\<open>
  return surgeries.reduce((acc, surgery) => {
    const date = parseBrazilianDate(surgery["Data Realizacao"]);
    const monthKey = ...;
    if (!acc[monthKey]) { acc[monthKey] = []; }
    acc[monthKey].push(surgery);
    return acc;
  }, {} as Record<string, Surgery[]>);
  \<close>
  The accumulator is an object used as a dictionary from keys to arrays. Its own properties
  are kept in the order in which they were added (no key is an array index, since each holds
  a hyphen, and none names a property of \<open>Object.prototype\<close>), so it is modelled as an
  association list, a new key going to the end.
\<close>

fun pushToGroup :: "jsstring \<Rightarrow> surgery \<Rightarrow> (jsstring \<times> surgery list) list \<Rightarrow> (jsstring \<times> surgery list) list" where
  "pushToGroup k surgery [] = []"
| "pushToGroup k surgery ((k', bucket) # acc) =
     (if k' = k then (k', bucket @ [surgery]) # acc else (k', bucket) # pushToGroup k surgery acc)"

definition groupStep :: "(jsstring \<times> surgery list) list \<Rightarrow> surgery \<Rightarrow> (jsstring \<times> surgery list) list" where
  "groupStep acc surgery =
     (let k = monthKey (Data_Realizacao surgery);
          acc' = (if map_of acc k = None then acc @ [(k, [])] else acc)
      in pushToGroup k surgery acc')"

definition groupSurgeriesByMonth :: "surgery list \<Rightarrow> (jsstring \<times> surgery list) list" where
  "groupSurgeriesByMonth surgeries = foldl groupStep [] surgeries"

section \<open>Notions used in the statements\<close>

text \<open>
  What follows is not part of the program: predicates and functions in which the properties
  below are stated, and the flattened form of the traversal on which their proofs rest.
\<close>

subsection \<open>Sanitizer\<close>

text \<open>No suffix of the text starts with a match.\<close>

fun noMatch :: "jsstring \<Rightarrow> bool" where
  "noMatch [] = True"
| "noMatch (c # cs) = (matchTag (c # cs) = None \<and> noMatch cs)"

text \<open>
  The matches that \<open>replace\<close> finds in a text, from the left: for each one the captured
  group and the text behind the match. The scan is that of \<open>replaceTags\<close>.
\<close>

function tagMatches :: "jsstring \<Rightarrow> (jsstring \<times> jsstring) list" where
  "tagMatches [] = []"
| "tagMatches (c # cs) =
     (case matchTag (c # cs) of
        Some (g, rest) \<Rightarrow> (g, rest) # tagMatches rest
      | None \<Rightarrow> tagMatches cs)"
  by pat_completeness auto
termination
  by (relation "measure length") (auto dest: matchTag_shorter)

text \<open>
  No match is replaced by the start of a new match: the bracket and the slash that replace
  a match, followed by the text behind the match, do not match the pattern. Behind a match
  without a slash this excludes an optional slash, a run of word characters and a dollar;
  behind a match with a slash, a run of word characters and a dollar.
\<close>

definition noRematch :: "jsstring \<Rightarrow> bool" where
  "noRematch s \<longleftrightarrow> (\<forall>(g, rest) \<in> set (tagMatches s). matchTag (0x3C # g @ rest) = None)"

text \<open>No match is directly followed by another dollar.\<close>

definition noDollarBehind :: "jsstring \<Rightarrow> bool" where
  "noDollarBehind s \<longleftrightarrow> (\<forall>(g, rest) \<in> set (tagMatches s). take 1 rest \<noteq> [0x24])"

subsection \<open>Tree extractor\<close>

text \<open>
  \<open>processElement\<close> scans the date-realization groups of the subtree one by one, in
  document order, and stops at the first error: \<open>scanAll\<close>. \<open>emitted\<close>, \<open>ofPatient\<close>
  and \<open>ofGroup\<close> are the records a surgery group, a patient group and a date-realization
  group give rise to.
\<close>

definition isDateGroup :: "node \<Rightarrow> bool" where
  "isDateGroup e \<longleftrightarrow> tagName e = str ''G_DT_REALIZACAO''"

definition scanDateGroup :: "node \<Rightarrow> surgery list \<Rightarrow> surgery list \<times> error option" where
  "scanDateGroup d surgeries =
     patientLoop (orEmpty (firstText d (str ''DT_REALIZACAO'')))
       (getElementsByTagName d (str ''G_NM_PACIENTE'')) surgeries"

fun scanAll :: "node list \<Rightarrow> surgery list \<Rightarrow> surgery list \<times> error option" where
  "scanAll [] surgeries = (surgeries, None)"
| "scanAll (d # ds) surgeries =
     (case scanDateGroup d surgeries of
        (surgeries', Some err) \<Rightarrow> (surgeries', Some err)
      | (surgeries', None) \<Rightarrow> scanAll ds surgeries')"

text \<open>The records a surgery group of a patient group gives rise to.\<close>

definition emitted :: "jsstring \<Rightarrow> node \<Rightarrow> node \<Rightarrow> surgery set" where
  "emitted date p g =
     (if firstText g (str ''DS_TIP_ANEST'') = Some (str ''LOCAL'') then {}
      else {surgeryRecord date p g (firstText g (str ''DS_TIP_ANEST''))})"

text \<open>The records of a patient group: those of the surgery groups below its first surgery list.\<close>

definition ofPatient :: "jsstring \<Rightarrow> node \<Rightarrow> surgery set" where
  "ofPatient date p =
     (case getElementsByTagName p (str ''LIST_G_CIRURGIA'') of
        [] \<Rightarrow> {}
      | l # ls \<Rightarrow> (\<Union>g \<in> set (getElementsByTagName l (str ''G_CIRURGIA'')). emitted date p g))"

text \<open>The records of a date-realization group: those of the patient groups below it.\<close>

definition ofGroup :: "node \<Rightarrow> surgery set" where
  "ofGroup d = (\<Union>p \<in> set (getElementsByTagName d (str ''G_NM_PACIENTE'')).
                  ofPatient (orEmpty (firstText d (str ''DT_REALIZACAO''))) p)"

text \<open>A date-realization group with a patient group that has no surgery list below it.\<close>

definition badGroup :: "node \<Rightarrow> bool" where
  "badGroup d \<longleftrightarrow> (\<exists>p \<in> set (getElementsByTagName d (str ''G_NM_PACIENTE'')).
                     getElementsByTagName p (str ''LIST_G_CIRURGIA'') = [])"

text \<open>The text of the first descendant with the tag name; the empty string when there is none.\<close>

definition leafText :: "node \<Rightarrow> jsstring \<Rightarrow> jsstring" where
  "leafText e name = (case getElementsByTagName e name of [] \<Rightarrow> [] | x # xs \<Rightarrow> textContent x)"

subsection \<open>Dates\<close>

text \<open>The value of a decimal digit, and of two of them.\<close>

definition digit :: "16 word \<Rightarrow> nat" where
  "digit c = unat c - 48"

definition twoDigits :: "16 word \<Rightarrow> 16 word \<Rightarrow> nat" where
  "twoDigits a b = 10 * digit a + digit b"

text \<open>The number of days of month \<open>m\<close> (1 to 12) of year \<open>y\<close>.\<close>

definition daysInMonth :: "int \<Rightarrow> int \<Rightarrow> int" where
  "daysInMonth y m =
     (if m = 2 then (if DaysInYear y = 366 then 29 else 28)
      else if m = 4 \<or> m = 6 \<or> m = 9 \<or> m = 11 then 30
      else 31)"

text \<open>
  A date \<open>DD/MM/YY\<close> of the calendar: six decimal digits, a month from 1 to 12 and a day
  of that month of the year \<open>2000 + YY\<close>.
\<close>

definition validDate :: "16 word \<Rightarrow> 16 word \<Rightarrow> 16 word \<Rightarrow> 16 word \<Rightarrow> 16 word \<Rightarrow> 16 word \<Rightarrow> bool" where
  "validDate d1 d2 m1 m2 y1 y2 \<longleftrightarrow>
     isDecimalDigit d1 \<and> isDecimalDigit d2 \<and> isDecimalDigit m1 \<and> isDecimalDigit m2
     \<and> isDecimalDigit y1 \<and> isDecimalDigit y2
     \<and> 1 \<le> twoDigits m1 m2 \<and> twoDigits m1 m2 \<le> 12
     \<and> 1 \<le> twoDigits d1 d2
     \<and> int (twoDigits d1 d2) \<le> daysInMonth (2000 + int (twoDigits y1 y2)) (int (twoDigits m1 m2))"

section \<open>Documents and records used as examples\<close>

definition leaf :: "string \<Rightarrow> string \<Rightarrow> node" where
  "leaf tag text = Element (str tag) [Text (str text)]"

text \<open>A date group with a date of its own, around a date group with a patient and a surgery.\<close>

definition nestedDocument :: node where
  "nestedDocument =
     Element (str ''ROOT'')
       [Element (str ''G_DT_REALIZACAO'')
          [leaf ''DT_REALIZACAO'' ''01/01/24'',
           Element (str ''G_DT_REALIZACAO'')
             [leaf ''DT_REALIZACAO'' ''02/02/24'',
              Element (str ''G_NM_PACIENTE'')
                [leaf ''CD_AVISO_CIRURGIA'' ''1001'',
                 leaf ''CD_PACIENTE'' ''77'',
                 leaf ''NM_PACIENTE'' ''MARIA'',
                 Element (str ''LIST_G_CIRURGIA'')
                   [Element (str ''G_CIRURGIA'')
                      [leaf ''DECODE_NVL_CIR_AVI_DS_NPADRONI'' ''HERNIA'',
                       leaf ''CF_NM_ANESTESISTA'' ''DR A'',
                       leaf ''DS_TIP_ANEST'' ''GERAL'']]]]]]"

text \<open>A parser that returns the given document element, whatever the text.\<close>

definition parserOf :: "node \<Rightarrow> jsstring \<Rightarrow> node" where
  "parserOf documentElement text = documentElement"

definition geralGroup :: node where
  "geralGroup = Element (str ''G_CIRURGIA'')
     [leaf ''DECODE_NVL_CIR_AVI_DS_NPADRONI'' ''HERNIA'', leaf ''CF_NM_ANESTESISTA'' ''DR A'',
      leaf ''DS_TIP_ANEST'' ''GERAL'']"

definition localGroup :: node where
  "localGroup = Element (str ''G_CIRURGIA'')
     [leaf ''DECODE_NVL_CIR_AVI_DS_NPADRONI'' ''SUTURA'', leaf ''CF_NM_ANESTESISTA'' ''DR B'',
      leaf ''DS_TIP_ANEST'' ''LOCAL'']"

definition bareGroup :: node where
  "bareGroup = Element (str ''G_CIRURGIA'') [leaf ''DECODE_NVL_CIR_AVI_DS_NPADRONI'' ''BIOPSIA'']"

definition patientGroup :: "node list \<Rightarrow> node" where
  "patientGroup gs = Element (str ''G_NM_PACIENTE'')
     [leaf ''CD_AVISO_CIRURGIA'' ''1001'', leaf ''CD_PACIENTE'' ''77'', leaf ''NM_PACIENTE'' ''MARIA'',
      Element (str ''LIST_G_CIRURGIA'') gs]"

definition listlessPatient :: node where
  "listlessPatient = Element (str ''G_NM_PACIENTE'') [leaf ''NM_PACIENTE'' ''JOSE'']"

text \<open>One date group, one patient, a surgery under general and one under local anesthesia.\<close>

definition scenarioDocument :: node where
  "scenarioDocument = Element (str ''ROOT'')
     [Element (str ''G_DT_REALIZACAO'')
        [leaf ''DT_REALIZACAO'' ''15/03/24'', patientGroup [geralGroup, localGroup]]]"

text \<open>A surgery group with a description only, under a patient and a date group without leaves.\<close>

definition bareDocument :: node where
  "bareDocument = Element (str ''ROOT'')
     [Element (str ''G_DT_REALIZACAO'')
        [Element (str ''G_NM_PACIENTE'') [Element (str ''LIST_G_CIRURGIA'') [bareGroup]]]]"

text \<open>A complete patient group followed by one without a surgery list, in one date group.\<close>

definition partialDocument :: node where
  "partialDocument = Element (str ''ROOT'')
     [Element (str ''G_DT_REALIZACAO'')
        [leaf ''DT_REALIZACAO'' ''15/03/24'', patientGroup [geralGroup], listlessPatient]]"

text \<open>A patient group without a surgery list, outside every date group.\<close>

definition strayDocument :: node where
  "strayDocument = Element (str ''ROOT'') [listlessPatient]"

definition geralRecord :: surgery where
  "geralRecord = \<lparr> Data_Realizacao = str ''15/03/24'', Aviso_Cirurgia = str ''1001'', Cirurgia = str ''HERNIA'',
     Codigo_Paciente = str ''77'', Nome_Paciente = str ''MARIA'', Anestesista = str ''DR A'',
     Tipo_Anestesia = str ''GERAL'' \<rparr>"

definition bareRecord :: surgery where
  "bareRecord = \<lparr> Data_Realizacao = [], Aviso_Cirurgia = [], Cirurgia = str ''BIOPSIA'',
     Codigo_Paciente = [], Nome_Paciente = [], Anestesista = [], Tipo_Anestesia = [] \<rparr>"

definition surgeryOn :: "string \<Rightarrow> surgery" where
  "surgeryOn date = geralRecord \<lparr> Data_Realizacao := str date \<rparr>"

section \<open>Literals\<close>

text \<open>Different ASCII literals are different strings: a character is below 256.\<close>

lemma unat_of_char: "unat (of_char c :: 16 word) = of_char c"
proof -
  have "(of_char c :: nat) < 256"
    by (metis of_char_mod_256 mod_less_divisor zero_less_numeral)
  then have "(of_char c :: nat) < 2 ^ 16" by (rule less_le_trans) simp
  then have "(of_char c :: nat) mod 2 ^ 16 = of_char c" by (rule mod_less)
  moreover have "(of_char c :: 16 word) = of_nat (of_char c)" by (simp add: of_nat_of_char)
  ultimately show ?thesis by (simp add: unat_of_nat del: of_nat_of_char)
qed

lemma of_char_word_eq_iff: "(of_char a :: 16 word) = of_char b \<longleftrightarrow> a = b"
proof
  assume "(of_char a :: 16 word) = of_char b"
  then have "unat (of_char a :: 16 word) = unat (of_char b :: 16 word)" by simp
  then show "a = b" by (simp add: unat_of_char)
qed simp

lemma str_eq_iff: "str a = str b \<longleftrightarrow> a = b"
  unfolding str_def by (rule inj_map_eq_map) (simp add: inj_on_def of_char_word_eq_iff)

section \<open>Matches of the pattern\<close>

lemma not_word: "\<not> isWordChar 0x24" "\<not> isWordChar 0x2F" "\<not> isWordChar 0x3C"
  by (simp_all add: isWordChar_def)

text \<open>A match is an opening bracket, the optional slash, a run of word characters and a dollar.\<close>

lemma matchTag_unfold:
  "matchTag s = Some (g, rest) \<Longrightarrow>
   \<exists>u. s = 0x3C # g @ u \<and> (g = [] \<or> g = [0x2F]) \<and> dropWhile isWordChar u = 0x24 # rest
       \<and> takeWhile isWordChar u \<noteq> []"
  by (auto simp: matchTag_def split: list.splits if_splits)

lemma matchTag_SomeD:
  assumes "matchTag s = Some (g, rest)"
  shows "\<exists>w. s = 0x3C # g @ w @ 0x24 # rest \<and> (g = [] \<or> g = [0x2F]) \<and> w \<noteq> [] \<and> (\<forall>x \<in> set w. isWordChar x)"
proof -
  from matchTag_unfold [OF assms] obtain u where s: "s = 0x3C # g @ u" and g: "g = [] \<or> g = [0x2F]"
    and d: "dropWhile isWordChar u = 0x24 # rest" and t: "takeWhile isWordChar u \<noteq> []"
    by blast
  have "u = takeWhile isWordChar u @ 0x24 # rest"
    using takeWhile_dropWhile_id [of isWordChar u] d by simp
  moreover have "\<forall>x \<in> set (takeWhile isWordChar u). isWordChar x"
    by (auto dest: set_takeWhileD)
  ultimately show ?thesis
    using s g t by (intro exI [of _ "takeWhile isWordChar u"]) auto
qed

lemma matchTag_SomeI:
  assumes "g = [] \<or> g = [0x2F]" and "w \<noteq> []" and "\<forall>x \<in> set w. isWordChar x"
  shows "matchTag (0x3C # g @ w @ 0x24 # rest) = Some (g, rest)"
proof -
  from assms(2) obtain a w' where w: "w = a # w'" by (cases w) auto
  with assms(3) have a: "isWordChar a" by simp
  then have a2: "a \<noteq> 0x2F" using not_word(2) by auto
  have tw: "takeWhile isWordChar (w @ 0x24 # rest) = w"
    using assms(3) by (simp add: takeWhile_append2 not_word)
  have dw: "dropWhile isWordChar (w @ 0x24 # rest) = 0x24 # rest"
    using assms(3) by (simp add: dropWhile_append2 not_word)
  from assms(1) show ?thesis
  proof
    assume "g = []"
    with tw dw assms(2) a2 show ?thesis
      by (simp add: matchTag_def w)
  next
    assume "g = [0x2F]"
    with tw dw assms(2) show ?thesis
      by (simp add: matchTag_def)
  qed
qed

lemma matchTag_head: "c \<noteq> 0x3C \<Longrightarrow> matchTag (c # cs) = None"
  by (simp add: matchTag_def)

text \<open>The replacement keeps every prefix without an opening bracket.\<close>

lemma replaceTags_prefix:
  "replaceTags cs = p @ r \<Longrightarrow> 0x3C \<notin> set p \<Longrightarrow> \<exists>r'. cs = p @ r' \<and> replaceTags r' = r"
proof (induction p arbitrary: cs)
  case Nil
  then show ?case by simp
next
  case (Cons x p)
  from Cons.prems have x: "x \<noteq> 0x3C" and p: "0x3C \<notin> set p" by auto
  from Cons.prems(1) obtain c cs' where cs: "cs = c # cs'"
    by (cases cs) auto
  show ?case
  proof (cases "matchTag (c # cs')")
    case None
    with Cons.prems(1) cs have "c = x" and "replaceTags cs' = p @ r" by simp_all
    with Cons.IH [OF _ p] cs show ?thesis by auto
  next
    case (Some m)
    with Cons.prems(1) cs x show ?thesis
      by (cases m) simp
  qed
qed

lemma replaceTags_first:
  assumes "replaceTags s = x # r" and "x \<noteq> 0x3C"
  shows "\<exists>s'. s = x # s'"
  using replaceTags_prefix [of s "[x]" r] assms by auto

lemma replaceTags_keep: "0x3C \<notin> set p \<Longrightarrow> replaceTags (p @ r) = p @ replaceTags r"
  by (induction p) (simp_all add: matchTag_head)

lemma length_replaceTags: "length (replaceTags s) \<le> length s"
proof (induction s rule: replaceTags.induct)
  case 1
  show ?case by simp
next
  case (2 c cs)
  show ?case
  proof (cases "matchTag (c # cs)")
    case None
    with "2.IH"(1) show ?thesis by simp
  next
    case (Some m)
    obtain g rest where m: "m = (g, rest)" by (cases m)
    from matchTag_SomeD [OF Some [unfolded m]] obtain w where
      s: "c # cs = 0x3C # g @ w @ 0x24 # rest" by blast
    then have "length (c # cs) = length g + length w + length rest + 2"
      by simp
    with "2.IH"(2) [OF Some m [symmetric]] Some m show ?thesis
      by simp
  qed
qed

section \<open>Texts the sanitizer leaves unchanged\<close>

lemma replaceTags_noMatch: "noMatch s \<Longrightarrow> replaceTags s = s"
  by (induction s) auto

lemma replaceTags_fixed: "replaceTags s = s \<Longrightarrow> noMatch s"
proof (induction s)
  case Nil
  show ?case by simp
next
  case (Cons c cs)
  show ?case
  proof (cases "matchTag (c # cs)")
    case None
    with Cons show ?thesis by simp
  next
    case (Some m)
    obtain g rest where m: "m = (g, rest)" by (cases m)
    from matchTag_SomeD [OF Some [unfolded m]] obtain w where
      s: "c # cs = 0x3C # g @ w @ 0x24 # rest" by blast
    then have "length (c # cs) = length g + length w + length rest + 2"
      by simp
    moreover from Cons.prems Some m have "c # cs = 0x3C # g @ replaceTags rest"
      by simp
    then have "length (c # cs) = length (0x3C # g @ replaceTags rest)"
      by (rule arg_cong)
    then have "length (c # cs) = 1 + length g + length (replaceTags rest)"
      by simp
    ultimately show ?thesis
      using length_replaceTags [of rest] by simp
  qed
qed

lemma replaceTags_fixed_iff: "replaceTags s = s \<longleftrightarrow> noMatch s"
  by (blast intro: replaceTags_noMatch replaceTags_fixed)

text \<open>Behind an opening bracket the replaced text starts with a match just when the text does.\<close>

lemma matchTag_replaceTags:
  "matchTag (0x3C # replaceTags cs) = None \<longleftrightarrow> matchTag (0x3C # cs) = None"
proof
  assume none: "matchTag (0x3C # replaceTags cs) = None"
  show "matchTag (0x3C # cs) = None"
  proof (cases "matchTag (0x3C # cs)")
    case None
    then show ?thesis .
  next
    case (Some m)
    obtain g rest where m: "m = (g, rest)" by (cases m)
    from matchTag_SomeD [OF Some [unfolded m]] obtain w where
      cs: "cs = (g @ w @ [0x24]) @ rest" and g: "g = [] \<or> g = [0x2F]"
      and w: "w \<noteq> []" "\<forall>x \<in> set w. isWordChar x"
      by auto
    have "0x3C \<notin> set (g @ w @ [0x24])"
      using g w(2) not_word(3) by auto
    then have "replaceTags cs = (g @ w @ [0x24]) @ replaceTags rest"
      unfolding cs by (rule replaceTags_keep)
    then have "matchTag (0x3C # replaceTags cs) = Some (g, replaceTags rest)"
      using matchTag_SomeI [OF g w, of "replaceTags rest"] by simp
    with none show ?thesis by simp
  qed
next
  assume none: "matchTag (0x3C # cs) = None"
  show "matchTag (0x3C # replaceTags cs) = None"
  proof (cases "matchTag (0x3C # replaceTags cs)")
    case None
    then show ?thesis .
  next
    case (Some m)
    obtain g rest where m: "m = (g, rest)" by (cases m)
    from matchTag_SomeD [OF Some [unfolded m]] obtain w where
      r: "replaceTags cs = (g @ w @ [0x24]) @ rest" and g: "g = [] \<or> g = [0x2F]"
      and w: "w \<noteq> []" "\<forall>x \<in> set w. isWordChar x"
      by auto
    have "0x3C \<notin> set (g @ w @ [0x24])"
      using g w(2) not_word(3) by auto
    from replaceTags_prefix [OF r this] obtain r' where "cs = (g @ w @ [0x24]) @ r'"
      by blast
    then have "matchTag (0x3C # cs) = Some (g, r')"
      using matchTag_SomeI [OF g w, of r'] by simp
    with none show ?thesis by simp
  qed
qed

lemma matchTag_group_replaceTags:
  assumes "g = [] \<or> g = [0x2F]"
  shows "matchTag (0x3C # g @ replaceTags rest) = None \<longleftrightarrow> matchTag (0x3C # g @ rest) = None"
proof -
  from assms have "0x3C \<notin> set g" by auto
  then have "replaceTags (g @ rest) = g @ replaceTags rest"
    by (rule replaceTags_keep)
  with matchTag_replaceTags [of "g @ rest"] show ?thesis by simp
qed

text \<open>
  The replaced text has a match just where a match of the text was replaced by the start
  of a new one.
\<close>

lemma noMatch_replaceTags: "noMatch (replaceTags s) \<longleftrightarrow> noRematch s"
proof (induction s rule: replaceTags.induct)
  case 1
  show ?case by (simp add: noRematch_def)
next
  case (2 c cs)
  show ?case
  proof (cases "matchTag (c # cs)")
    case None
    have "matchTag (c # replaceTags cs) = None"
    proof (cases "c = 0x3C")
      case True
      with None matchTag_replaceTags [of cs] show ?thesis by simp
    next
      case False
      then show ?thesis by (rule matchTag_head)
    qed
    with None "2.IH"(1) [OF None] show ?thesis
      by (simp add: noRematch_def)
  next
    case (Some m)
    obtain g rest where m: "m = (g, rest)" by (cases m)
    from matchTag_SomeD [OF Some [unfolded m]] have g: "g = [] \<or> g = [0x2F]"
      by blast
    then have "noMatch (g @ replaceTags rest) = noMatch (replaceTags rest)"
      by (auto simp: matchTag_head)
    with Some m "2.IH"(2) [OF Some m [symmetric]] matchTag_group_replaceTags [OF g, of rest]
    show ?thesis
      by (simp add: noRematch_def)
  qed
qed

lemma replaceTags_twice: "replaceTags (replaceTags s) = replaceTags s \<longleftrightarrow> noRematch s"
  by (simp only: replaceTags_fixed_iff noMatch_replaceTags)

text \<open>
  Sanitizing twice gives the text sanitized once just when the text does not begin with
  two byte-order-marks and no match is replaced by the start of a new one.
\<close>

lemma sanitizeXML_twice:
  "sanitizeXML (sanitizeXML xmlString) = sanitizeXML xmlString
   \<longleftrightarrow> take 2 xmlString \<noteq> [0xFEFF, 0xFEFF] \<and> noRematch xmlString"
proof (cases "take 2 xmlString = [0xFEFF, 0xFEFF]")
  case True
  then obtain t where x: "xmlString = 0xFEFF # 0xFEFF # t"
    by (cases xmlString; cases "tl xmlString") (auto split: if_splits)
  have "sanitizeXML xmlString = 0xFEFF # replaceTags t"
    by (simp add: x sanitizeXML_def matchTag_head)
  moreover have "length (replaceTags (replaceTags t)) \<le> length (replaceTags t)"
    by (rule length_replaceTags)
  ultimately have "length (sanitizeXML (sanitizeXML xmlString)) < length (sanitizeXML xmlString)"
    by (simp add: sanitizeXML_def)
  with True show ?thesis by auto
next
  case False
  define s where "s = (case xmlString of [] \<Rightarrow> xmlString | c # t \<Rightarrow> if c = 0xFEFF then t else xmlString)"
  have san: "sanitizeXML xmlString = replaceTags s"
    by (simp add: sanitizeXML_def s_def)
  have re: "noRematch s = noRematch xmlString"
    by (auto simp: s_def noRematch_def matchTag_head split: list.splits)
  have nobom: "\<not> (\<exists>t. s = 0xFEFF # t)"
    using False by (auto simp: s_def split: list.splits if_splits)
  have "\<not> (\<exists>r. replaceTags s = 0xFEFF # r)"
  proof
    assume "\<exists>r. replaceTags s = 0xFEFF # r"
    then obtain r where "replaceTags s = 0xFEFF # r" ..
    from replaceTags_first [OF this] nobom show False by simp
  qed
  then have "sanitizeXML (replaceTags s) = replaceTags (replaceTags s)"
    by (auto simp: sanitizeXML_def split: list.splits)
  with False san re replaceTags_twice [of s] show ?thesis by simp
qed

section \<open>The traversal, flattened\<close>

lemma scanAll_append:
  "scanAll (xs @ ys) acc =
     (case scanAll xs acc of (acc', Some err) \<Rightarrow> (acc', Some err) | (acc', None) \<Rightarrow> scanAll ys acc')"
  by (induction xs arbitrary: acc) (auto split: prod.splits option.splits)

lemma processElement_flat:
  "isElement e \<Longrightarrow> processElement e acc = scanAll (filter isDateGroup (e # descendants e)) acc"
  "childrenLoop cs acc =
     scanAll (filter isDateGroup (concat (map (\<lambda>c. if isElement c then c # descendants c else []) cs))) acc"
proof (induction e acc and cs acc rule: processElement_childrenLoop.induct)
  case (1 tag cs surgeries)
  then show ?case
    by (auto simp: isDateGroup_def scanDateGroup_def split: prod.splits option.splits)
next
  case (5 c cs surgeries)
  then show ?case
    by (auto simp: scanAll_append split: prod.splits option.splits)
qed simp_all

lemma set_pushSurgery: "set (pushSurgery date p g acc) = set acc \<union> emitted date p g"
  by (simp add: pushSurgery_def emitted_def Let_def)

lemma set_surgeryLoop: "set (surgeryLoop date p gs acc) = set acc \<union> (\<Union>g \<in> set gs. emitted date p g)"
  by (induction gs arbitrary: acc) (auto simp: set_pushSurgery)

lemma surgeryLoop_ofPatient:
  "getElementsByTagName p (str ''LIST_G_CIRURGIA'') = l # ls \<Longrightarrow>
   set (surgeryLoop date p (getElementsByTagName l (str ''G_CIRURGIA'')) acc) = set acc \<union> ofPatient date p"
  by (simp add: set_surgeryLoop ofPatient_def)

lemma patientLoop_sound:
  "set (fst (patientLoop date ps acc)) \<subseteq> set acc \<union> (\<Union>p \<in> set ps. ofPatient date p)"
proof (induction ps arbitrary: acc)
  case Nil
  then show ?case by simp
next
  case (Cons p ps)
  show ?case
  proof (cases "getElementsByTagName p (str ''LIST_G_CIRURGIA'')")
    case Nil
    then show ?thesis by simp
  next
    case (Cons l ls)
    from Cons.IH [of "surgeryLoop date p (getElementsByTagName l (str ''G_CIRURGIA'')) acc"]
    show ?thesis
      by (auto simp: Cons surgeryLoop_ofPatient [OF Cons])
  qed
qed

lemma patientLoop_complete:
  "snd (patientLoop date ps acc) = None \<Longrightarrow>
   set (fst (patientLoop date ps acc)) = set acc \<union> (\<Union>p \<in> set ps. ofPatient date p)"
proof (induction ps arbitrary: acc)
  case Nil
  then show ?case by simp
next
  case (Cons p ps)
  show ?case
  proof (cases "getElementsByTagName p (str ''LIST_G_CIRURGIA'')")
    case Nil
    with Cons.prems show ?thesis by simp
  next
    case c: (Cons l ls)
    with Cons.prems have
      "snd (patientLoop date ps (surgeryLoop date p (getElementsByTagName l (str ''G_CIRURGIA'')) acc)) = None"
      by simp
    from Cons.IH [OF this] show ?thesis
      by (auto simp: c surgeryLoop_ofPatient [OF c])
  qed
qed

lemma patientLoop_throws:
  "snd (patientLoop date ps acc) =
     (if \<exists>p \<in> set ps. getElementsByTagName p (str ''LIST_G_CIRURGIA'') = [] then Some TypeError else None)"
  by (induction ps arbitrary: acc) (auto split: list.splits)

lemma scanAll_sound: "set (fst (scanAll ds acc)) \<subseteq> set acc \<union> (\<Union>d \<in> set ds. ofGroup d)"
proof (induction ds arbitrary: acc)
  case Nil
  then show ?case by simp
next
  case (Cons d ds)
  have s: "set (fst (scanDateGroup d acc)) \<subseteq> set acc \<union> ofGroup d"
    unfolding scanDateGroup_def ofGroup_def by (rule patientLoop_sound)
  show ?case
  proof (cases "scanDateGroup d acc")
    case (Pair acc' e)
    with s Cons.IH [of acc'] show ?thesis
      by (cases e) auto
  qed
qed

lemma scanAll_throws:
  "snd (scanAll ds acc) = (if \<exists>d \<in> set ds. badGroup d then Some TypeError else None)"
proof (induction ds arbitrary: acc)
  case Nil
  then show ?case by simp
next
  case (Cons d ds)
  have s: "snd (scanDateGroup d acc) = (if badGroup d then Some TypeError else None)"
    unfolding scanDateGroup_def badGroup_def by (rule patientLoop_throws)
  show ?case
  proof (cases "scanDateGroup d acc")
    case (Pair acc' e)
    with s Cons.IH [of acc'] show ?thesis
      by (cases e) (auto split: if_splits)
  qed
qed

lemma scanAll_complete:
  "snd (scanAll ds acc) = None \<Longrightarrow> set (fst (scanAll ds acc)) = set acc \<union> (\<Union>d \<in> set ds. ofGroup d)"
proof (induction ds arbitrary: acc)
  case Nil
  then show ?case by simp
next
  case (Cons d ds)
  show ?case
  proof (cases "scanDateGroup d acc")
    case (Pair acc' e)
    with Cons.prems have e: "e = None" and rest: "snd (scanAll ds acc') = None"
      by (auto split: option.splits)
    from Pair e have "snd (scanDateGroup d acc) = None" by simp
    then have "set (fst (scanDateGroup d acc)) = set acc \<union> ofGroup d"
      unfolding scanDateGroup_def ofGroup_def by (rule patientLoop_complete)
    with Pair e Cons.IH [OF rest] show ?thesis by auto
  qed
qed

lemma str_Nil_iff: "str s = [] \<longleftrightarrow> s = []" "[] = str s \<longleftrightarrow> s = []"
  by (auto simp: str_def)

lemma orEmpty_Some: "orEmpty (Some s) = s"
  by (simp add: orEmpty_def)

lemma orEmpty_firstText:
  "orEmpty (firstText e name) = (case getElementsByTagName e name of [] \<Rightarrow> [] | x # xs \<Rightarrow> textContent x)"
  by (simp add: orEmpty_def firstText_def split: list.splits)

lemma emitted_not_LOCAL: "r \<in> emitted date p g \<Longrightarrow> Tipo_Anestesia r \<noteq> str ''LOCAL''"
  by (cases "firstText g (str ''DS_TIP_ANEST'')")
     (auto simp: emitted_def surgeryRecord_def orEmpty_def str_Nil_iff split: if_splits)

lemma processElement_sound:
  "set (fst (processElement e acc)) \<subseteq> set acc \<union> (\<Union>d \<in> set (filter isDateGroup (e # descendants e)). ofGroup d)"
proof (cases "isElement e")
  case True
  then show ?thesis
    using scanAll_sound [of "filter isDateGroup (e # descendants e)" acc]
    by (simp only: processElement_flat(1))
next
  case False
  then show ?thesis by (cases e) simp_all
qed

lemma dateGroups_document:
  "set (documentElementsByTagName e (str ''G_DT_REALIZACAO'')) = set (filter isDateGroup (e # descendants e))"
  by (simp add: documentElementsByTagName_def isDateGroup_def)

text \<open>Every record that extraction leaves in the array comes from a surgery group.\<close>

lemma extracted_origin:
  assumes "r \<in> set (fst (processElement e []))"
  obtains d p l ls g where
    "d \<in> set (documentElementsByTagName e (str ''G_DT_REALIZACAO''))"
    "p \<in> set (getElementsByTagName d (str ''G_NM_PACIENTE''))"
    "getElementsByTagName p (str ''LIST_G_CIRURGIA'') = l # ls"
    "g \<in> set (getElementsByTagName l (str ''G_CIRURGIA''))"
    "r \<in> emitted (orEmpty (firstText d (str ''DT_REALIZACAO''))) p g"
proof -
  from assms processElement_sound [of e "[]"]
  obtain d where d: "d \<in> set (filter isDateGroup (e # descendants e))" and r: "r \<in> ofGroup d"
    by auto
  from r obtain p where p: "p \<in> set (getElementsByTagName d (str ''G_NM_PACIENTE''))"
    and rp: "r \<in> ofPatient (orEmpty (firstText d (str ''DT_REALIZACAO''))) p"
    by (auto simp: ofGroup_def)
  from rp obtain l ls g where "getElementsByTagName p (str ''LIST_G_CIRURGIA'') = l # ls"
    "g \<in> set (getElementsByTagName l (str ''G_CIRURGIA''))"
    "r \<in> emitted (orEmpty (firstText d (str ''DT_REALIZACAO''))) p g"
    by (auto simp: ofPatient_def split: list.splits)
  with d p that show thesis
    by (simp only: dateGroups_document)
qed

lemma parseXML_records:
  "parseXML DOMParser xmlString = Inr surgeries \<Longrightarrow>
   processElement (DOMParser (sanitizeXML xmlString)) [] = (surgeries, None)"
  by (auto simp: parseXML_def Let_def split: list.splits prod.splits option.splits)

lemma parseXML_single_records:
  "parseXML_single DOMParser xmlString = Inr (surgeries, err) \<Longrightarrow>
   fst (processElement (DOMParser (sanitizeXML xmlString)) []) = surgeries"
  by (auto simp: parseXML_single_def Let_def split: list.splits prod.splits option.splits)

lemma orEmpty_leafText: "orEmpty (firstText e name) = leafText e name"
  by (simp add: orEmpty_firstText leafText_def)

lemma document_isElement:
  "d \<in> set (documentElementsByTagName e (str ''G_DT_REALIZACAO'')) \<Longrightarrow> isElement e"
  by (cases e) (auto simp: documentElementsByTagName_def str_Nil_iff)

lemma processElement_throws:
  assumes "d \<in> set (documentElementsByTagName e (str ''G_DT_REALIZACAO''))"
    and "p \<in> set (getElementsByTagName d (str ''G_NM_PACIENTE''))"
    and "getElementsByTagName p (str ''LIST_G_CIRURGIA'') = []"
  shows "snd (processElement e acc) = Some TypeError"
proof -
  from assms(2,3) have "badGroup d"
    by (auto simp: badGroup_def)
  with assms(1) have "\<exists>d \<in> set (filter isDateGroup (e # descendants e)). badGroup d"
    by (auto simp only: dateGroups_document)
  then show ?thesis
    by (simp only: processElement_flat(1) [OF document_isElement [OF assms(1)]] scanAll_throws if_True)
qed

lemma parseXML_single_complete:
  "parseXML_single DOMParser xmlString = Inr (surgeries, None) \<Longrightarrow>
   processElement (DOMParser (sanitizeXML xmlString)) [] = (surgeries, None)"
  by (auto simp: parseXML_single_def Let_def split: list.splits prod.splits option.splits)

lemma emitted_fields:
  assumes "r \<in> emitted date p g"
  shows "Data_Realizacao r = date"
    and "Aviso_Cirurgia r = leafText p (str ''CD_AVISO_CIRURGIA'')"
    and "Cirurgia r = leafText g (str ''DECODE_NVL_CIR_AVI_DS_NPADRONI'')"
    and "Codigo_Paciente r = leafText p (str ''CD_PACIENTE'')"
    and "Nome_Paciente r = leafText p (str ''NM_PACIENTE'')"
    and "Anestesista r = leafText g (str ''CF_NM_ANESTESISTA'')"
    and "Tipo_Anestesia r = leafText g (str ''DS_TIP_ANEST'')"
  using assms
  by (simp_all add: emitted_def surgeryRecord_def orEmpty_leafText split: if_splits)

declare yearDown.simps [simp del] yearUp.simps [simp del] decimal.simps [simp del]

section \<open>Years\<close>

text \<open>The search of \<open>YearFromTime\<close> finds the year ECMAScript defines.\<close>

lemma DayFromYear_step: "DayFromYear x < DayFromYear (x + 1)"
  using DayFromYear_Suc [of x] DaysInYear_bounds(1) [of x] by simp

lemma DayFromYear_mono_nat: "DayFromYear y < DayFromYear (y + 1 + int n)"
proof (induction n)
  case 0
  show ?case using DayFromYear_step [of y] by simp
next
  case (Suc n)
  have "y + 1 + int (Suc n) = (y + 1 + int n) + 1" by simp
  with DayFromYear_step [of "y + 1 + int n"] Suc show ?case by (simp only:)
qed

lemma DayFromYear_strict_mono: "y < z \<Longrightarrow> DayFromYear y < DayFromYear z"
proof -
  assume "y < z"
  then have "z = y + 1 + int (nat (z - y - 1))" by simp
  then show ?thesis using DayFromYear_mono_nat [of y "nat (z - y - 1)"] by simp
qed

lemma DayFromYear_le_iff: "DayFromYear y \<le> DayFromYear z \<longleftrightarrow> y \<le> z"
  by (metis DayFromYear_strict_mono linorder_not_less order_le_less)

lemma yearDown_le: "DayFromYear (yearDown y d) \<le> d"
  by (induction y d rule: yearDown.induct) (simp add: yearDown.simps)

lemma yearUp_spec:
  "DayFromYear y \<le> d \<Longrightarrow> DayFromYear (yearUp y d) \<le> d \<and> d < DayFromYear (yearUp y d + 1)"
  by (induction y d rule: yearUp.induct) (simp add: yearUp.simps)

lemma YearFromTime_spec:
  "DayFromYear (YearFromTime t) \<le> Day t \<and> Day t < DayFromYear (YearFromTime t + 1)"
  unfolding YearFromTime_def by (rule yearUp_spec) (rule yearDown_le)

lemma YearFromTime_eq:
  assumes "DayFromYear y \<le> Day t" and "Day t < DayFromYear (y + 1)"
  shows "YearFromTime t = y"
proof -
  let ?z = "YearFromTime t"
  from YearFromTime_spec [of t] have z: "DayFromYear ?z \<le> Day t" "Day t < DayFromYear (?z + 1)"
    by simp_all
  have "\<not> ?z < y"
  proof
    assume "?z < y"
    then have "?z + 1 \<le> y" by simp
    then have "DayFromYear (?z + 1) \<le> DayFromYear y" by (simp only: DayFromYear_le_iff)
    with z assms show False by simp
  qed
  moreover have "\<not> y < ?z"
  proof
    assume "y < ?z"
    then have "y + 1 \<le> ?z" by simp
    then have "DayFromYear (y + 1) \<le> DayFromYear ?z" by (simp only: DayFromYear_le_iff)
    with z assms show False by simp
  qed
  ultimately show ?thesis by simp
qed

section \<open>Decimal digits\<close>

lemma digit_cases:
  assumes "isDecimalDigit c"
  shows "c \<in> {0x30, 0x31, 0x32, 0x33, 0x34, 0x35, 0x36, 0x37, 0x38, 0x39}"
proof -
  from assms have "48 \<le> unat c" and "unat c \<le> 57"
    by (simp_all add: isDecimalDigit_def word_le_nat_alt)
  then have "unat c = 48 \<or> unat c = 49 \<or> unat c = 50 \<or> unat c = 51 \<or> unat c = 52 \<or> unat c = 53
      \<or> unat c = 54 \<or> unat c = 55 \<or> unat c = 56 \<or> unat c = 57"
    by arith
  moreover have "c = of_nat (unat c)" by simp
  ultimately show ?thesis
    by (elim disjE) (simp_all only: insert_iff, simp_all)
qed

lemma digit_facts:
  assumes "isDecimalDigit c"
  shows "\<not> isStrWhiteSpaceChar c" and "c \<noteq> 0x2F" and "c \<noteq> 0x2B" and "c \<noteq> 0x2D" and "c \<noteq> 0x2E"
    and "digitValue 10 c = Some (digit c)" and "digit c < 10" and "0x30 + of_nat (digit c) = c"
    and "c \<notin> {0x62, 0x42, 0x6F, 0x4F, 0x78, 0x58}"
  using digit_cases [OF assms]
  by (elim insertE emptyE; simp add: isStrWhiteSpaceChar_def digitValue_def digit_def)+

lemma Number_two_digits:
  assumes a: "isDecimalDigit a" and b: "isDecimalDigit b"
  shows "Number [a, b] = Finite (of_nat (10 * digit a + digit b))"
proof -
  note fa = digit_facts [OF a] and fb = digit_facts [OF b]
  have trim: "trimString [a, b] = [a, b]"
    by (simp add: trimString_def fa(1) fb(1))
  have nd: "NonDecimalIntegerLiteral [a, b] = None"
    using fb(9) by (simp add: NonDecimalIntegerLiteral_def)
  have sign: "signOf [a, b] = (False, [a, b])"
    by (simp add: signOf_def fa(3,4))
  have inf: "[a, b] \<noteq> str ''Infinity''"
    by (simp add: str_def)
  have "StrUnsignedDecimalLiteral [a, b] = Some (of_nat (10 * digit a + digit b))"
    by (simp add: StrUnsignedDecimalLiteral_def a b fa(6) fb(6) ExponentPart_def scale10_def)
  with trim nd sign inf show ?thesis
    by (simp add: Number_def StrDecimalLiteral_def)
qed

lemma split_date:
  assumes "isDecimalDigit d1" "isDecimalDigit d2" "isDecimalDigit m1" "isDecimalDigit m2"
    "isDecimalDigit y1" "isDecimalDigit y2"
  shows "split 0x2F [d1, d2, 0x2F, m1, m2, 0x2F, y1, y2] = [[d1, d2], [m1, m2], [y1, y2]]"
  using assms [THEN digit_facts(2)] by simp

section \<open>Calendar dates\<close>

lemma Day_of_days: "Day (d * msPerDay) = d"
  by (simp add: Day_def msPerDay_def)

lemma DaysInYear_cases: "DaysInYear y = 365 \<or> DaysInYear y = 366"
  by (simp add: DaysInYear_def)

lemma month_cases:
  assumes "1 \<le> m" and "m \<le> (12::int)"
  shows "m = 1 \<or> m = 2 \<or> m = 3 \<or> m = 4 \<or> m = 5 \<or> m = 6 \<or> m = 7 \<or> m = 8 \<or> m = 9 \<or> m = 10 \<or> m = 11 \<or> m = 12"
  using assms by arith

lemma date_within_year:
  assumes "1 \<le> m" and "m \<le> 12" and "1 \<le> d" and "d \<le> daysInMonth y m"
  shows "DayFromYear y \<le> monthStart y (m - 1) + d - 1"
    and "monthStart y (m - 1) + d - 1 < DayFromYear (y + 1)"
  using month_cases [OF assms(1,2)] assms(3,4) DaysInYear_cases [of y]
  by (elim disjE; simp add: monthStart_def daysInMonth_def DayFromYear_Suc)+

lemma date_roundtrip:
  assumes m: "1 \<le> m" "m \<le> 12" and d: "1 \<le> d" "d \<le> daysInMonth y m"
  shows "YearFromTime ((monthStart y (m - 1) + d - 1) * msPerDay) = y"
    and "MonthFromTime ((monthStart y (m - 1) + d - 1) * msPerDay) = m - 1"
proof -
  let ?t = "(monthStart y (m - 1) + d - 1) * msPerDay"
  show y: "YearFromTime ?t = y"
    using date_within_year [OF assms] by (intro YearFromTime_eq) (simp_all only: Day_of_days)
  have "DayWithinYear ?t = monthStart y (m - 1) + d - 1 - DayFromYear y"
    by (simp only: DayWithinYear_def Day_of_days y)
  moreover have "InLeapYear ?t = (if DaysInYear y = 366 then 1 else 0)"
    by (simp only: InLeapYear_def y)
  ultimately show "MonthFromTime ?t = m - 1"
    using month_cases [OF m] d DaysInYear_cases [of y]
    by (elim disjE; simp add: MonthFromTime_def monthStart_def daysInMonth_def Let_def)
qed

section \<open>The key of a valid date\<close>

lemma truncate_of_int: "truncate (of_int n) = n"
  by (simp add: truncate_def)

lemma DayFromYear_2000: "DayFromYear 2000 = 10957"
  by (simp add: DayFromYear_def)

lemma DayFromYear_2100: "DayFromYear 2100 = 47482"
  by (simp add: DayFromYear_def)

lemma DayFromYear_mono: "y \<le> z \<Longrightarrow> DayFromYear y \<le> DayFromYear z"
  by (simp only: DayFromYear_le_iff)

lemma parseBrazilianDate_valid:
  assumes "validDate d1 d2 m1 m2 y1 y2"
  shows "parseBrazilianDate [d1, d2, 0x2F, m1, m2, 0x2F, y1, y2] =
         Some ((monthStart (2000 + int (twoDigits y1 y2)) (int (twoDigits m1 m2) - 1)
                + int (twoDigits d1 d2) - 1) * msPerDay)"
proof -
  let ?y = "2000 + int (twoDigits y1 y2)" and ?m = "int (twoDigits m1 m2)" and ?d = "int (twoDigits d1 d2)"
  from assms have dg: "isDecimalDigit d1" "isDecimalDigit d2" "isDecimalDigit m1" "isDecimalDigit m2"
      "isDecimalDigit y1" "isDecimalDigit y2"
    and m: "1 \<le> ?m" "?m \<le> 12" and d: "1 \<le> ?d" "?d \<le> daysInMonth ?y ?m"
    by (simp_all add: validDate_def)
  have yy: "twoDigits y1 y2 < 100"
    using digit_facts(7) [OF dg(5)] digit_facts(7) [OF dg(6)] by (simp add: twoDigits_def)
  have parts: "map Number (split 0x2F [d1, d2, 0x2F, m1, m2, 0x2F, y1, y2]) =
      [Finite (of_int ?d), Finite (of_int ?m), Finite (of_int (int (twoDigits y1 y2)))]"
    by (simp only: split_date [OF dg] list.map Number_two_digits dg twoDigits_def of_int_of_nat_eq)
  have year: "add (Finite 2000) (Finite (of_int (int (twoDigits y1 y2)))) = Finite (of_int ?y)"
    by simp
  have month: "sub (Finite (of_int ?m)) (Finite 1) = Finite (of_int (?m - 1))"
    by (simp add: sub_def)
  have mdiv: "(?m - 1) div 12 = 0" "(?m - 1) mod 12 = ?m - 1"
    using m by simp_all
  have lo: "DayFromYear 2000 \<le> DayFromYear ?y"
    by (rule DayFromYear_mono) simp
  have hi: "DayFromYear (?y + 1) \<le> DayFromYear 2100"
    using yy by (intro DayFromYear_mono) simp
  from date_within_year [OF m d] lo hi
  have range: "10957 \<le> monthStart ?y (?m - 1) + ?d - 1" "monthStart ?y (?m - 1) + ?d - 1 < 47482"
    by (simp_all only: DayFromYear_2000 DayFromYear_2100)
  have day: "MakeDay (Finite (of_int ?y)) (Finite (of_int (?m - 1))) (Finite (of_int ?d)) =
      Some (monthStart ?y (?m - 1) + ?d - 1)"
    by (simp only: MakeDay_def prod.case number.case truncate_of_int mdiv) simp
  have clip: "TimeClip (MakeDate (monthStart ?y (?m - 1) + ?d - 1) 0) =
      Some ((monthStart ?y (?m - 1) + ?d - 1) * msPerDay)"
    using range by (simp add: TimeClip_def MakeDate_def msPerDay_def abs_if)
  have new: "newDate (Finite (of_int ?y)) (Finite (of_int (?m - 1))) (Finite (of_int ?d)) =
      Some ((monthStart ?y (?m - 1) + ?d - 1) * msPerDay)"
  proof -
    have "\<not> (0 \<le> ?y \<and> ?y \<le> 99)" by simp
    then show ?thesis
      by (simp only: newDate_def Let_def number.case truncate_of_int if_False day option.case clip)
  qed
  show ?thesis
  proof -
    have "element [Finite (of_int ?d), Finite (of_int ?m), Finite (of_int (int (twoDigits y1 y2)))] 0 = Finite (of_int ?d)"
      "element [Finite (of_int ?d), Finite (of_int ?m), Finite (of_int (int (twoDigits y1 y2)))] 1 = Finite (of_int ?m)"
      "element [Finite (of_int ?d), Finite (of_int ?m), Finite (of_int (int (twoDigits y1 y2)))] 2
         = Finite (of_int (int (twoDigits y1 y2)))"
      by (simp_all add: element_def)
    then show ?thesis
      by (simp only: parseBrazilianDate_def Let_def parts year month new)
  qed
qed

lemma decimal_small: "n < 10 \<Longrightarrow> decimal n = [0x30 + of_nat n]"
  by (subst decimal.simps) simp

lemma decimal_big: "10 \<le> n \<Longrightarrow> decimal n = decimal (n div 10) @ [0x30 + of_nat (n mod 10)]"
  by (subst decimal.simps) simp

lemma div10: "b < 10 \<Longrightarrow> (b + q * 10) div 10 = q" "b < 10 \<Longrightarrow> (b + q * 10) mod 10 = b" for b q :: nat
  by simp_all

lemma year_text:
  assumes a: "isDecimalDigit a" and b: "isDecimalDigit b"
  shows "toString (Some (2000 + int (twoDigits a b))) = [0x32, 0x30, a, b]"
proof -
  note fa = digit_facts [OF a] and fb = digit_facts [OF b]
  let ?n = "2000 + twoDigits a b"
  have e: "?n = digit b + (200 + digit a) * 10"
    by (simp add: twoDigits_def)
  have n: "?n div 10 = 200 + digit a" "?n mod 10 = digit b"
    unfolding e by (rule div10 [OF fb(7)])+
  have e2: "200 + digit a = digit a + 20 * 10"
    by simp
  have h: "(200 + digit a) div 10 = 20" "(200 + digit a) mod 10 = digit a"
    unfolding e2 by (rule div10 [OF fa(7)])+
  have "decimal 20 = [0x32, 0x30]"
    by (simp add: decimal_big decimal_small)
  then have "decimal (200 + digit a) = [0x32, 0x30, a]"
    by (simp add: decimal_big [of "200 + digit a"] h fa(8))
  then have "decimal ?n = [0x32, 0x30, a, b]"
    by (simp add: decimal_big [of ?n] n fb(8))
  moreover have "nat (2000 + int (twoDigits a b)) = ?n" by simp
  ultimately show ?thesis
    by (simp add: toString_def)
qed

lemma month_text:
  assumes a: "isDecimalDigit a" and b: "isDecimalDigit b"
    and m: "1 \<le> twoDigits a b" "twoDigits a b \<le> 12"
  shows "padStart 2 (str ''0'') (toString (Some (int (twoDigits a b)))) = [a, b]"
proof -
  note fa = digit_facts [OF a] and fb = digit_facts [OF b]
  from m fb(7) have "digit a = 0 \<or> digit a = 1"
    by (simp add: twoDigits_def) arith
  then show ?thesis
  proof
    assume z: "digit a = 0"
    with fa(8) have "a = 0x30" by simp
    moreover have "decimal (twoDigits a b) = [b]"
      using fb(7,8) z by (simp add: twoDigits_def decimal_small)
    ultimately show ?thesis
      by (simp add: toString_def padStart_def str_def)
  next
    assume o: "digit a = 1"
    with fa(8) have "a = 0x31" by simp
    moreover have "decimal (twoDigits a b) = [0x31, b]"
      using fb(7,8) o by (simp add: twoDigits_def decimal_big decimal_small)
    ultimately show ?thesis
      by (simp add: toString_def padStart_def)
  qed
qed

lemma monthKey_valid:
  assumes "validDate d1 d2 m1 m2 y1 y2"
  shows "monthKey [d1, d2, 0x2F, m1, m2, 0x2F, y1, y2] =
         toString (Some (2000 + int (twoDigits y1 y2))) @ str ''-'' @ [m1, m2]"
proof -
  let ?y = "2000 + int (twoDigits y1 y2)" and ?m = "int (twoDigits m1 m2)" and ?d = "int (twoDigits d1 d2)"
  let ?t = "(monthStart ?y (?m - 1) + ?d - 1) * msPerDay"
  from assms have dg: "isDecimalDigit m1" "isDecimalDigit m2"
    and mn: "1 \<le> twoDigits m1 m2" "twoDigits m1 m2 \<le> 12"
    and m: "1 \<le> ?m" "?m \<le> 12" and d: "1 \<le> ?d" "?d \<le> daysInMonth ?y ?m"
    by (simp_all add: validDate_def)
  have "getFullYear (Some ?t) = Some ?y"
    by (simp only: getFullYear_def option.map date_roundtrip(1) [OF m d])
  moreover have "map_option (\<lambda>m. m + 1) (getMonth (Some ?t)) = Some ?m"
    by (simp only: getMonth_def option.map date_roundtrip(2) [OF m d]) simp
  ultimately show ?thesis
    by (simp only: monthKey_def Let_def parseBrazilianDate_valid [OF assms] month_text [OF dg mn])
qed

section \<open>The buckets of the grouping\<close>

lemma pushToGroup_keys: "map fst (pushToGroup k s acc) = map fst acc"
  by (induction acc) auto

lemma pushToGroup_set:
  "distinct (map fst acc) \<Longrightarrow>
   set (pushToGroup k s acc) = (\<lambda>(k', b). if k' = k then (k', b @ [s]) else (k', b)) ` set acc"
proof (induction acc)
  case Nil
  then show ?case by simp
next
  case (Cons p acc)
  obtain k' b where p: "p = (k', b)" by (cases p)
  show ?case
  proof (cases "k' = k")
    case True
    with Cons.prems p have "k \<notin> fst ` set acc" by simp
    then have "(\<lambda>(k', b). if k' = k then (k', b @ [s]) else (k', b)) ` set acc = set acc"
      by (force simp: image_iff split: prod.splits)
    with True p show ?thesis by simp
  next
    case False
    with Cons p show ?thesis by simp
  qed
qed

lemma pushToGroup_size:
  "k \<in> fst ` set acc \<Longrightarrow>
   sum_list (map (\<lambda>(k', b). length b) (pushToGroup k s acc)) = Suc (sum_list (map (\<lambda>(k', b). length b) acc))"
  by (induction acc) (auto split: prod.splits)

text \<open>
  After any prefix of the records, the keys are distinct and the bucket of a key holds the
  records of the prefix with that key, in their order.
\<close>

lemma groupStep_buckets:
  assumes "distinct (map fst acc)"
    and "set acc = (\<lambda>k. (k, filter (\<lambda>r. monthKey (Data_Realizacao r) = k) rs)) ` (\<lambda>r. monthKey (Data_Realizacao r)) ` set rs"
  shows "distinct (map fst (groupStep acc s))"
    and "set (groupStep acc s) =
         (\<lambda>k. (k, filter (\<lambda>r. monthKey (Data_Realizacao r) = k) (rs @ [s]))) ` (\<lambda>r. monthKey (Data_Realizacao r)) ` set (rs @ [s])"
proof -
  let ?key = "\<lambda>r. monthKey (Data_Realizacao r)"
  let ?k = "?key s"
  let ?acc' = "if map_of acc ?k = None then acc @ [(?k, [])] else acc"
  have keys: "fst ` set acc = ?key ` set rs"
    using assms(2) by (auto simp: image_iff)
  have absent: "map_of acc ?k = None \<longleftrightarrow> ?k \<notin> ?key ` set rs"
    using keys by (simp add: map_of_eq_None_iff)
  have d': "distinct (map fst ?acc')"
    using assms(1) by (auto simp: map_of_eq_None_iff)
  show "distinct (map fst (groupStep acc s))"
    using d' by (simp add: groupStep_def Let_def pushToGroup_keys)
  have set': "set ?acc' = (\<lambda>k. (k, filter (\<lambda>r. ?key r = k) rs)) ` (?key ` set (rs @ [s]))"
  proof (cases "?k \<in> ?key ` set rs")
    case True
    with absent have "?acc' = acc" by simp
    moreover from True have "?key ` set (rs @ [s]) = ?key ` set rs" by auto
    ultimately show ?thesis using assms(2) by (simp only:)
  next
    case False
    with absent have "?acc' = acc @ [(?k, [])]" by simp
    moreover from False have "filter (\<lambda>r. ?key r = ?k) rs = []"
      by (force simp: filter_empty_conv image_iff)
    ultimately show ?thesis using assms(2) by simp
  qed
  have "set (groupStep acc s) = (\<lambda>(k', b). if k' = ?k then (k', b @ [s]) else (k', b)) ` set ?acc'"
    using pushToGroup_set [OF d'] by (simp add: groupStep_def Let_def)
  also have "\<dots> = (\<lambda>k. (\<lambda>(k', b). if k' = ?k then (k', b @ [s]) else (k', b)) (k, filter (\<lambda>r. ?key r = k) rs))
      ` (?key ` set (rs @ [s]))"
    unfolding set' by (simp only: image_image)
  also have "\<dots> = (\<lambda>k. (k, filter (\<lambda>r. ?key r = k) (rs @ [s]))) ` (?key ` set (rs @ [s]))"
    by (rule image_cong) auto
  finally show "set (groupStep acc s) =
      (\<lambda>k. (k, filter (\<lambda>r. ?key r = k) (rs @ [s]))) ` ?key ` set (rs @ [s])" .
qed

lemma groupSurgeriesByMonth_buckets:
  "distinct (map fst (groupSurgeriesByMonth rs)) \<and>
   set (groupSurgeriesByMonth rs) =
     (\<lambda>k. (k, filter (\<lambda>r. monthKey (Data_Realizacao r) = k) rs)) ` (\<lambda>r. monthKey (Data_Realizacao r)) ` set rs"
proof (induction rs rule: rev_induct)
  case Nil
  show ?case by (simp add: groupSurgeriesByMonth_def)
next
  case (snoc s rs)
  have step: "groupSurgeriesByMonth (rs @ [s]) = groupStep (groupSurgeriesByMonth rs) s"
    by (simp add: groupSurgeriesByMonth_def)
  from snoc groupStep_buckets [of "groupSurgeriesByMonth rs" rs s] show ?case
    unfolding step by blast
qed

lemma groupStep_size:
  "sum_list (map (\<lambda>(k, b). length b) (groupStep acc s)) = Suc (sum_list (map (\<lambda>(k, b). length b) acc))"
proof -
  let ?k = "monthKey (Data_Realizacao s)"
  show ?thesis
  proof (cases "map_of acc ?k")
    case None
    then show ?thesis
      by (simp add: groupStep_def Let_def pushToGroup_size)
  next
    case (Some b)
    then have "?k \<in> fst ` set acc"
      by (metis map_of_eq_None_iff option.distinct(1))
    with Some show ?thesis
      by (simp add: groupStep_def Let_def pushToGroup_size)
  qed
qed

lemma groupSurgeriesByMonth_size:
  "sum_list (map (\<lambda>(k, b). length b) (groupSurgeriesByMonth rs)) = length rs"
  by (induction rs rule: rev_induct) (simp_all add: groupSurgeriesByMonth_def groupStep_size)

section \<open>Dates that are not dates\<close>

lemma record_filed:
  assumes "r \<in> set surgeries"
  shows "(monthKey (Data_Realizacao r), filter (\<lambda>s. monthKey (Data_Realizacao s) = monthKey (Data_Realizacao r)) surgeries)
           \<in> set (groupSurgeriesByMonth surgeries)"
  using assms groupSurgeriesByMonth_buckets [of surgeries] by auto

lemma monthKey_invalid: "parseBrazilianDate s = None \<Longrightarrow> monthKey s = str ''NaN-NaN''"
  by (simp add: monthKey_def getFullYear_def getMonth_def toString_def padStart_def str_def)

lemma newDate_NaN: "year = NaN \<or> month = NaN \<or> day = NaN \<Longrightarrow> newDate year month day = None"
  by (cases year; cases month; cases day) (auto simp: newDate_def MakeDay_def Let_def)

lemma parseBrazilianDate_NaN:
  assumes "\<exists>i < 3. element (map Number (split 0x2F s)) i = NaN"
  shows "parseBrazilianDate s = None"
proof -
  let ?parts = "map Number (split 0x2F s)"
  from assms obtain i where i: "i < 3" and e: "element ?parts i = NaN"
    by blast
  from i have "i = 0 \<or> i = 1 \<or> i = 2"
    by arith
  with e have "element ?parts 0 = NaN \<or> element ?parts 1 = NaN \<or> element ?parts 2 = NaN"
    by blast
  then have "add (Finite 2000) (element ?parts 2) = NaN \<or> sub (element ?parts 1) (Finite 1) = NaN
      \<or> element ?parts 0 = NaN"
    by (auto simp: sub_def)
  then show ?thesis
    unfolding parseBrazilianDate_def Let_def by (rule newDate_NaN)
qed

section \<open>The examples, evaluated\<close>

lemmas extract_eval = parseXML_def parseXML_single_def documentElementsByTagName_def
  getElementsByTagName_def firstText_def orEmpty_def pushSurgery_def surgeryRecord_def str_eq_iff
  str_Nil_iff Let_def leaf_def sanitizeXML_def parserOf_def geralGroup_def localGroup_def
  bareGroup_def patientGroup_def listlessPatient_def

lemma scenario_result:
  "parseXML (parserOf scenarioDocument) [] = Inr [geralRecord]"
  "parseXML_single (parserOf scenarioDocument) [] = Inr ([geralRecord], None)"
  by (simp_all add: scenarioDocument_def geralRecord_def extract_eval)

lemma bare_result:
  "parseXML (parserOf bareDocument) [] = Inr [bareRecord]"
  by (simp add: bareDocument_def bareRecord_def extract_eval)

lemma partial_result:
  "parseXML (parserOf partialDocument) [] = Inl (ProcessingError TypeError)"
  "parseXML_single (parserOf partialDocument) [] = Inr ([geralRecord], Some (ProcessingError TypeError))"
  by (simp_all add: partialDocument_def geralRecord_def extract_eval)

lemma stray_result:
  "parseXML (parserOf strayDocument) [] = Inr []"
  "parseXML_single (parserOf strayDocument) [] = Inr ([], None)"
  by (simp_all add: strayDocument_def extract_eval)

lemma monthKey_examples:
  "monthKey (str ''15/03/24'') = str ''2024-03''"
  "monthKey (str ''10/04/24'') = str ''2024-04''"
  "monthKey (str ''20/03/24'') = str ''2024-03''"
  "monthKey (str ''31/13/24'') = str ''2025-01''"
  "monthKey (str ''ab/03/24'') = str ''NaN-NaN''"
  "monthKey (str ''15/03'') = str ''NaN-NaN''"
  by code_simp+

lemma group_examples:
  "groupSurgeriesByMonth [surgeryOn ''15/03/24'', surgeryOn ''10/04/24'', surgeryOn ''20/03/24''] =
     [(str ''2024-03'', [surgeryOn ''15/03/24'', surgeryOn ''20/03/24'']), (str ''2024-04'', [surgeryOn ''10/04/24''])]"
  "groupSurgeriesByMonth [surgeryOn ''31/13/24''] = [(str ''2025-01'', [surgeryOn ''31/13/24''])]"
  "groupSurgeriesByMonth [surgeryOn ''ab/03/24'', surgeryOn ''15/03''] =
     [(str ''NaN-NaN'', [surgeryOn ''ab/03/24'', surgeryOn ''15/03''])]"
  by (simp_all add: groupSurgeriesByMonth_def groupStep_def surgeryOn_def monthKey_examples str_eq_iff)

lemmas sanitize_eval = sanitizeXML_def matchTag_def isWordChar_def str_def

section \<open>Claims about the sanitizer\<close>

text \<open>
  C1: the sanitizer is to turn \<open><TAG$>\<close> into \<open><TAG>\<close> and \<open></TAG$>\<close> into \<open></TAG>\<close>. The
  replacement text \<open>"<$1"\<close> holds the bracket and the optional slash only, so the
  tag name goes with the dollar: the text made of a byte-order-mark and
  \<open><ROOT$>x</ROOT$>\<close> becomes \<open><>x</>\<close>, not \<open><ROOT>x</ROOT>\<close>.
\<close>

theorem sanitizeXML_drops_tag_name:
  "sanitizeXML (0xFEFF # str ''<ROOT$>x</ROOT$>'') = str ''<>x</>''
   \<and> sanitizeXML (0xFEFF # str ''<ROOT$>x</ROOT$>'') \<noteq> str ''<ROOT>x</ROOT>''"
  by (simp add: sanitizeXML_def matchTag_def isWordChar_def str_def)

text \<open>
  C6 (as amended): for every text that does not begin with two byte-order-marks and in
  which no match of the pattern is replaced by the start of a new match or directly
  followed by another dollar, sanitizing twice gives the same text as sanitizing once.

  By \<open>sanitizeXML_twice\<close> the first two conditions are the exact ones: they hold if and
  only if the second pass changes nothing. The third sets aside the texts such as
  \<open><a$$>\<close>, on which the second pass finds no match only because the first pass has
  removed the tag name (see C1); nothing is stated about them.
\<close>

theorem sanitizeXML_idempotent:
  assumes "take 2 xmlString \<noteq> [0xFEFF, 0xFEFF]"
    and "noRematch xmlString"
    and "noDollarBehind xmlString"
  shows "sanitizeXML (sanitizeXML xmlString) = sanitizeXML xmlString"
  using assms(1,2) by (simp only: sanitizeXML_twice simp_thms)

theorem sanitizeXML_idempotent_witness:
  "take 2 (0xFEFF # str ''<ROOT$>R$10$</ROOT$>'') \<noteq> [0xFEFF, 0xFEFF]
   \<and> tagMatches (0xFEFF # str ''<ROOT$>R$10$</ROOT$>'') = [([], str ''>R$10$</ROOT$>''), (str ''/'', str ''>'')]
   \<and> noRematch (0xFEFF # str ''<ROOT$>R$10$</ROOT$>'')
   \<and> noDollarBehind (0xFEFF # str ''<ROOT$>R$10$</ROOT$>'')
   \<and> sanitizeXML (0xFEFF # str ''<ROOT$>R$10$</ROOT$>'') = str ''<>R$10$</>''
   \<and> sanitizeXML (sanitizeXML (0xFEFF # str ''<ROOT$>R$10$</ROOT$>'')) = str ''<>R$10$</>''"
proof -
  have b: "take 2 (0xFEFF # str ''<ROOT$>R$10$</ROOT$>'') \<noteq> [0xFEFF, 0xFEFF]"
    by (simp add: str_def)
  have m: "tagMatches (0xFEFF # str ''<ROOT$>R$10$</ROOT$>'') = [([], str ''>R$10$</ROOT$>''), (str ''/'', str ''>'')]"
    by (simp add: sanitize_eval)
  have r: "noRematch (0xFEFF # str ''<ROOT$>R$10$</ROOT$>'')"
    unfolding noRematch_def m by (simp add: sanitize_eval)
  have d: "noDollarBehind (0xFEFF # str ''<ROOT$>R$10$</ROOT$>'')"
    unfolding noDollarBehind_def m by (simp add: sanitize_eval)
  have s: "sanitizeXML (0xFEFF # str ''<ROOT$>R$10$</ROOT$>'') = str ''<>R$10$</>''"
    by (simp add: sanitize_eval)
  from b m r d s sanitizeXML_idempotent [OF b r d] show ?thesis
    by simp
qed

text \<open>
  C6 as stated fails twice: a match directly followed by a tag name and a dollar leaves a
  new match behind, and only one of two leading byte-order-marks is stripped.
\<close>

theorem sanitizeXML_not_idempotent:
  "sanitizeXML (str ''<a$b$>'') = str ''<b$>''
   \<and> sanitizeXML (sanitizeXML (str ''<a$b$>'')) = str ''<>''
   \<and> sanitizeXML (sanitizeXML (str ''<a$b$>'')) \<noteq> sanitizeXML (str ''<a$b$>'')
   \<and> sanitizeXML (sanitizeXML [0xFEFF, 0xFEFF]) \<noteq> sanitizeXML [0xFEFF, 0xFEFF]"
  by (simp add: sanitize_eval)

section \<open>Claims about the tree extractor\<close>

text \<open>
  C3 (as amended): in the monthly converter, for every document in which a patient group
  below a date-realization group has no surgery-list group below it, extraction throws (a
  parse error when the document holds a \<open>parsererror\<close> element, else the error that wraps
  the \<open>TypeError\<close>) and returns no record list; the single-workbook converter stores that
  error's message and returns the records pushed before it.
\<close>

theorem missing_surgery_list_throws:
  assumes "d \<in> set (documentElementsByTagName (DOMParser (sanitizeXML xmlString)) (str ''G_DT_REALIZACAO''))"
    and "p \<in> set (getElementsByTagName d (str ''G_NM_PACIENTE''))"
    and "getElementsByTagName p (str ''LIST_G_CIRURGIA'') = []"
  shows "(\<exists>err. parseXML DOMParser xmlString = Inl err)
    \<and> (\<forall>e es. documentElementsByTagName (DOMParser (sanitizeXML xmlString)) (str ''parsererror'') = e # es \<longrightarrow>
         parseXML DOMParser xmlString = Inl (XMLParsingError (textContent e)))
    \<and> (documentElementsByTagName (DOMParser (sanitizeXML xmlString)) (str ''parsererror'') = [] \<longrightarrow>
         parseXML DOMParser xmlString = Inl (ProcessingError TypeError)
         \<and> parseXML_single DOMParser xmlString =
             Inr (fst (processElement (DOMParser (sanitizeXML xmlString)) []), Some (ProcessingError TypeError)))"
proof -
  obtain surgeries where "processElement (DOMParser (sanitizeXML xmlString)) [] = (surgeries, Some TypeError)"
    using processElement_throws [OF assms, of "[]"]
    by (cases "processElement (DOMParser (sanitizeXML xmlString)) []") simp
  then show ?thesis
    by (simp add: parseXML_def parseXML_single_def Let_def split: list.splits)
qed

theorem missing_surgery_list_throws_witness:
  "listlessPatient \<in> set (getElementsByTagName (Element (str ''G_DT_REALIZACAO'')
        [leaf ''DT_REALIZACAO'' ''15/03/24'', patientGroup [geralGroup], listlessPatient]) (str ''G_NM_PACIENTE''))
   \<and> getElementsByTagName listlessPatient (str ''LIST_G_CIRURGIA'') = []
   \<and> parseXML (parserOf partialDocument) [] = Inl (ProcessingError TypeError)
   \<and> parseXML_single (parserOf partialDocument) [] = Inr ([geralRecord], Some (ProcessingError TypeError))"
proof -
  let ?d = "Element (str ''G_DT_REALIZACAO'')
        [leaf ''DT_REALIZACAO'' ''15/03/24'', patientGroup [geralGroup], listlessPatient]"
  have d: "?d \<in> set (documentElementsByTagName (parserOf partialDocument (sanitizeXML [])) (str ''G_DT_REALIZACAO''))"
    by (simp add: partialDocument_def extract_eval)
  have p: "listlessPatient \<in> set (getElementsByTagName ?d (str ''G_NM_PACIENTE''))"
    by (simp add: extract_eval)
  have l: "getElementsByTagName listlessPatient (str ''LIST_G_CIRURGIA'') = []"
    by (simp add: extract_eval)
  from missing_surgery_list_throws [where DOMParser = "parserOf partialDocument" and xmlString = "[]", OF d p l]
    p l partial_result show ?thesis
    by simp
qed

text \<open>
  C3 as stated fails in both converters. The single-workbook converter returns the record
  pushed before the patient group without a surgery list, with the error only stored as a
  message; and a patient group without a surgery list outside every date-realization group
  is never looked at, so both converters return the empty list and no error.
\<close>

theorem missing_surgery_list_swallowed:
  "parseXML_single (parserOf partialDocument) [] = Inr ([geralRecord], Some (ProcessingError TypeError))
   \<and> parseXML (parserOf strayDocument) [] = Inr []
   \<and> parseXML_single (parserOf strayDocument) [] = Inr ([], None)
   \<and> getElementsByTagName listlessPatient (str ''LIST_G_CIRURGIA'') = []
   \<and> listlessPatient \<in> set (documentElementsByTagName partialDocument (str ''G_NM_PACIENTE''))
   \<and> listlessPatient \<in> set (documentElementsByTagName strayDocument (str ''G_NM_PACIENTE''))"
  by (simp add: partial_result stray_result)
     (simp add: partialDocument_def strayDocument_def extract_eval)

text \<open>
  C4: no record that extraction returns, in either converter, has the anesthesia type
  \<open>LOCAL\<close>; a surgery group whose anesthesia-type leaf is \<open>LOCAL\<close> adds no record.
\<close>

theorem extracted_never_LOCAL:
  "(\<forall>surgeries. parseXML DOMParser xmlString = Inr surgeries \<longrightarrow>
      (\<forall>r \<in> set surgeries. Tipo_Anestesia r \<noteq> str ''LOCAL''))
   \<and> (\<forall>surgeries err. parseXML_single DOMParser xmlString = Inr (surgeries, err) \<longrightarrow>
      (\<forall>r \<in> set surgeries. Tipo_Anestesia r \<noteq> str ''LOCAL''))
   \<and> (firstText surgeryElement (str ''DS_TIP_ANEST'') = Some (str ''LOCAL'') \<longrightarrow>
      pushSurgery date patientElement surgeryElement surgeries = surgeries)"
proof (intro conjI allI impI ballI)
  fix surgeries r
  assume "parseXML DOMParser xmlString = Inr surgeries" and r: "r \<in> set surgeries"
  then have "r \<in> set (fst (processElement (DOMParser (sanitizeXML xmlString)) []))"
    by (simp add: parseXML_records)
  then show "Tipo_Anestesia r \<noteq> str ''LOCAL''"
    by (rule extracted_origin) (rule emitted_not_LOCAL)
next
  fix surgeries err r
  assume "parseXML_single DOMParser xmlString = Inr (surgeries, err)" and r: "r \<in> set surgeries"
  then have "r \<in> set (fst (processElement (DOMParser (sanitizeXML xmlString)) []))"
    by (simp add: parseXML_single_records)
  then show "Tipo_Anestesia r \<noteq> str ''LOCAL''"
    by (rule extracted_origin) (rule emitted_not_LOCAL)
next
  assume "firstText surgeryElement (str ''DS_TIP_ANEST'') = Some (str ''LOCAL'')"
  then show "pushSurgery date patientElement surgeryElement surgeries = surgeries"
    by (simp add: pushSurgery_def)
qed

theorem extracted_never_LOCAL_witness:
  "parseXML (parserOf scenarioDocument) [] = Inr [geralRecord]
   \<and> parseXML_single (parserOf scenarioDocument) [] = Inr ([geralRecord], None)
   \<and> Tipo_Anestesia geralRecord \<noteq> str ''LOCAL''
   \<and> firstText localGroup (str ''DS_TIP_ANEST'') = Some (str ''LOCAL'')
   \<and> pushSurgery (str ''15/03/24'') (patientGroup [geralGroup, localGroup]) localGroup [geralRecord] = [geralRecord]"
  using extracted_never_LOCAL [where DOMParser = "parserOf scenarioDocument" and xmlString = "[]"
      and surgeryElement = localGroup and date = "str ''15/03/24''"
      and patientElement = "patientGroup [geralGroup, localGroup]" and surgeries = "[geralRecord]"]
    scenario_result
  by (simp add: geralRecord_def extract_eval)

text \<open>
  C5: every record that extraction returns, in either converter, comes from a date group,
  a patient group below it and a surgery group below the patient's first surgery list, and
  each of its seven fields is a string: the text of the first leaf with the field's tag
  name below that group, or the empty string when there is no such leaf.
\<close>

theorem extracted_fields_are_strings:
  assumes "parseXML DOMParser xmlString = Inr surgeries
           \<or> parseXML_single DOMParser xmlString = Inr (surgeries, err)"
    and "r \<in> set surgeries"
  shows "\<exists>d p l ls g.
           d \<in> set (documentElementsByTagName (DOMParser (sanitizeXML xmlString)) (str ''G_DT_REALIZACAO''))
         \<and> p \<in> set (getElementsByTagName d (str ''G_NM_PACIENTE''))
         \<and> getElementsByTagName p (str ''LIST_G_CIRURGIA'') = l # ls
         \<and> g \<in> set (getElementsByTagName l (str ''G_CIRURGIA''))
         \<and> Data_Realizacao r = leafText d (str ''DT_REALIZACAO'')
         \<and> Aviso_Cirurgia r = leafText p (str ''CD_AVISO_CIRURGIA'')
         \<and> Cirurgia r = leafText g (str ''DECODE_NVL_CIR_AVI_DS_NPADRONI'')
         \<and> Codigo_Paciente r = leafText p (str ''CD_PACIENTE'')
         \<and> Nome_Paciente r = leafText p (str ''NM_PACIENTE'')
         \<and> Anestesista r = leafText g (str ''CF_NM_ANESTESISTA'')
         \<and> Tipo_Anestesia r = leafText g (str ''DS_TIP_ANEST'')"
proof -
  from assms have "r \<in> set (fst (processElement (DOMParser (sanitizeXML xmlString)) []))"
    by (auto simp: parseXML_records dest: parseXML_single_records)
  then obtain d p l ls g where
    o: "d \<in> set (documentElementsByTagName (DOMParser (sanitizeXML xmlString)) (str ''G_DT_REALIZACAO''))"
      "p \<in> set (getElementsByTagName d (str ''G_NM_PACIENTE''))"
      "getElementsByTagName p (str ''LIST_G_CIRURGIA'') = l # ls"
      "g \<in> set (getElementsByTagName l (str ''G_CIRURGIA''))"
    and e: "r \<in> emitted (orEmpty (firstText d (str ''DT_REALIZACAO''))) p g"
    by (rule extracted_origin)
  from o emitted_fields [OF e] show ?thesis
    by (simp only: orEmpty_leafText) blast
qed

theorem extracted_fields_are_strings_witness:
  "parseXML (parserOf bareDocument) [] = Inr [bareRecord]
   \<and> bareRecord \<in> set [bareRecord]
   \<and> leafText bareGroup (str ''DS_TIP_ANEST'') = []
   \<and> leafText bareGroup (str ''DECODE_NVL_CIR_AVI_DS_NPADRONI'') = str ''BIOPSIA''
   \<and> Data_Realizacao bareRecord = [] \<and> Aviso_Cirurgia bareRecord = []
   \<and> Cirurgia bareRecord = str ''BIOPSIA'' \<and> Codigo_Paciente bareRecord = []
   \<and> Nome_Paciente bareRecord = [] \<and> Anestesista bareRecord = [] \<and> Tipo_Anestesia bareRecord = []"
proof -
  have a: "parseXML (parserOf bareDocument) [] = Inr [bareRecord]
           \<or> parseXML_single (parserOf bareDocument) [] = Inr ([bareRecord], None)"
    by (simp add: bare_result)
  have b: "bareRecord \<in> set [bareRecord]"
    by simp
  from extracted_fields_are_strings [OF a b] bare_result show ?thesis
    by (simp add: bareRecord_def leafText_def extract_eval)
qed

text \<open>
  C9: a surgery group without an anesthesia-type leaf is not skipped. The loop body pushes
  a record for it whose anesthesia type is the empty string, and when extraction returns
  without an error (in either converter) that record is in the list returned, for every
  such surgery group below the first surgery list of a patient group of a
  date-realization group.
\<close>

theorem absent_anesthesia_type_not_skipped:
  assumes "getElementsByTagName g (str ''DS_TIP_ANEST'') = []"
  shows "pushSurgery date p g surgeries = surgeries @ [surgeryRecord date p g None]
    \<and> Tipo_Anestesia (surgeryRecord date p g None) = []
    \<and> (\<forall>d l ls extracted.
          (parseXML DOMParser xmlString = Inr extracted
             \<or> parseXML_single DOMParser xmlString = Inr (extracted, None))
          \<and> d \<in> set (documentElementsByTagName (DOMParser (sanitizeXML xmlString)) (str ''G_DT_REALIZACAO''))
          \<and> p \<in> set (getElementsByTagName d (str ''G_NM_PACIENTE''))
          \<and> getElementsByTagName p (str ''LIST_G_CIRURGIA'') = l # ls
          \<and> g \<in> set (getElementsByTagName l (str ''G_CIRURGIA''))
          \<longrightarrow> surgeryRecord (leafText d (str ''DT_REALIZACAO'')) p g None \<in> set extracted)"
proof (intro conjI allI impI)
  from assms have none: "firstText g (str ''DS_TIP_ANEST'') = None"
    by (simp add: firstText_def)
  then show "pushSurgery date p g surgeries = surgeries @ [surgeryRecord date p g None]"
    by (simp add: pushSurgery_def)
  show "Tipo_Anestesia (surgeryRecord date p g None) = []"
    by (simp add: surgeryRecord_def orEmpty_def)
  fix d l ls extracted
  assume a: "(parseXML DOMParser xmlString = Inr extracted
             \<or> parseXML_single DOMParser xmlString = Inr (extracted, None))
          \<and> d \<in> set (documentElementsByTagName (DOMParser (sanitizeXML xmlString)) (str ''G_DT_REALIZACAO''))
          \<and> p \<in> set (getElementsByTagName d (str ''G_NM_PACIENTE''))
          \<and> getElementsByTagName p (str ''LIST_G_CIRURGIA'') = l # ls
          \<and> g \<in> set (getElementsByTagName l (str ''G_CIRURGIA''))"
  let ?e = "DOMParser (sanitizeXML xmlString)"
  let ?date = "leafText d (str ''DT_REALIZACAO'')"
  from a have run: "processElement ?e [] = (extracted, None)"
    by (auto simp: parseXML_records parseXML_single_complete)
  from a have el: "isElement ?e"
    by (auto intro: document_isElement)
  from run have "snd (scanAll (filter isDateGroup (?e # descendants ?e)) []) = None"
    by (simp add: processElement_flat(1) [OF el])
  from scanAll_complete [OF this] run
  have all: "set extracted = (\<Union>d \<in> set (filter isDateGroup (?e # descendants ?e)). ofGroup d)"
    by (simp add: processElement_flat(1) [OF el])
  have "surgeryRecord ?date p g None \<in> emitted ?date p g"
    by (simp add: emitted_def none)
  with a have "surgeryRecord ?date p g None \<in> ofPatient ?date p"
    by (auto simp: ofPatient_def)
  with a have "surgeryRecord ?date p g None \<in> ofGroup d"
    by (auto simp: ofGroup_def orEmpty_leafText)
  moreover from a have "d \<in> set (filter isDateGroup (?e # descendants ?e))"
    by (simp only: dateGroups_document)
  ultimately show "surgeryRecord ?date p g None \<in> set extracted"
    unfolding all by blast
qed

theorem absent_anesthesia_type_not_skipped_witness:
  "getElementsByTagName bareGroup (str ''DS_TIP_ANEST'') = []
   \<and> pushSurgery [] (Element (str ''G_NM_PACIENTE'') [Element (str ''LIST_G_CIRURGIA'') [bareGroup]]) bareGroup []
       = [bareRecord]
   \<and> Tipo_Anestesia bareRecord = []
   \<and> parseXML (parserOf bareDocument) [] = Inr [bareRecord]"
proof -
  have a: "getElementsByTagName bareGroup (str ''DS_TIP_ANEST'') = []"
    by (simp add: extract_eval)
  from absent_anesthesia_type_not_skipped [OF a, where date = "[]" and surgeries = "[]"
      and p = "Element (str ''G_NM_PACIENTE'') [Element (str ''LIST_G_CIRURGIA'') [bareGroup]]"
      and DOMParser = "parserOf bareDocument" and xmlString = "[]"] a bare_result
  show ?thesis
    by (simp add: bareRecord_def extract_eval)
qed

text \<open>
  C10: there is a document with a date-realization group inside another in which the one
  surgery group below the inner group gives two records: the first from the scan of the
  outer group, with the outer group's date, the second from the scan of the inner group.
\<close>

theorem nested_date_groups_duplicate:
  "parseXML (parserOf nestedDocument) [] =
     Inr [\<lparr> Data_Realizacao = str ''01/01/24'', Aviso_Cirurgia = str ''1001'', Cirurgia = str ''HERNIA'',
             Codigo_Paciente = str ''77'', Nome_Paciente = str ''MARIA'', Anestesista = str ''DR A'',
             Tipo_Anestesia = str ''GERAL'' \<rparr>,
          \<lparr> Data_Realizacao = str ''02/02/24'', Aviso_Cirurgia = str ''1001'', Cirurgia = str ''HERNIA'',
             Codigo_Paciente = str ''77'', Nome_Paciente = str ''MARIA'', Anestesista = str ''DR A'',
             Tipo_Anestesia = str ''GERAL'' \<rparr>]
   \<and> length (documentElementsByTagName nestedDocument (str ''G_DT_REALIZACAO'')) = 2
   \<and> length (documentElementsByTagName nestedDocument (str ''G_CIRURGIA'')) = 1"
  by (simp add: nestedDocument_def extract_eval)

section \<open>Claims about the date grouper\<close>

text \<open>
  C2 (as amended): grouping never fails and there is no date error. Every record is kept,
  in the bucket of the key computed from its date. A date with fewer than three segments,
  or with a segment among the first three that is not numeric, is filed under the key
  \<open>NaN-NaN\<close>; numeric components out of the calendar's range roll over, so that
  \<open>31/13/24\<close> is filed under \<open>2025-01\<close>.
\<close>

theorem grouping_never_fails:
  "(\<forall>r \<in> set surgeries. \<exists>bucket.
       (monthKey (Data_Realizacao r), bucket) \<in> set (groupSurgeriesByMonth surgeries) \<and> r \<in> set bucket)
   \<and> (\<forall>r \<in> set surgeries.
        length (split 0x2F (Data_Realizacao r)) < 3
        \<or> (\<exists>i < 3. Number (split 0x2F (Data_Realizacao r) ! i) = NaN)
        \<longrightarrow> monthKey (Data_Realizacao r) = str ''NaN-NaN'')
   \<and> monthKey (str ''31/13/24'') = str ''2025-01''"
proof (intro conjI ballI impI)
  fix r
  assume r: "r \<in> set surgeries"
  from record_filed [OF r] r
  show "\<exists>bucket. (monthKey (Data_Realizacao r), bucket) \<in> set (groupSurgeriesByMonth surgeries) \<and> r \<in> set bucket"
    by (intro exI [of _ "filter (\<lambda>s. monthKey (Data_Realizacao s) = monthKey (Data_Realizacao r)) surgeries"]) simp
next
  fix r
  let ?segments = "split 0x2F (Data_Realizacao r)"
  assume "length ?segments < 3 \<or> (\<exists>i < 3. Number (?segments ! i) = NaN)"
  then have "\<exists>i < 3. element (map Number ?segments) i = NaN"
  proof
    assume "length ?segments < 3"
    then have "element (map Number ?segments) 2 = NaN"
      by (simp add: element_def)
    then show ?thesis by (intro exI [of _ 2]) simp
  next
    assume "\<exists>i < 3. Number (?segments ! i) = NaN"
    then obtain i where "i < 3" and "Number (?segments ! i) = NaN" by blast
    then have "element (map Number ?segments) i = NaN"
      by (simp add: element_def)
    with \<open>i < 3\<close> show ?thesis by blast
  qed
  then show "monthKey (Data_Realizacao r) = str ''NaN-NaN''"
    by (intro monthKey_invalid parseBrazilianDate_NaN)
next
  show "monthKey (str ''31/13/24'') = str ''2025-01''"
    by (rule monthKey_examples)
qed

theorem grouping_never_fails_witness:
  "surgeryOn ''ab/03/24'' \<in> set [surgeryOn ''ab/03/24'', surgeryOn ''15/03'']
   \<and> Number (split 0x2F (Data_Realizacao (surgeryOn ''ab/03/24'')) ! 0) = NaN
   \<and> length (split 0x2F (Data_Realizacao (surgeryOn ''15/03''))) < 3
   \<and> groupSurgeriesByMonth [surgeryOn ''ab/03/24'', surgeryOn ''15/03''] =
       [(str ''NaN-NaN'', [surgeryOn ''ab/03/24'', surgeryOn ''15/03''])]"
proof -
  have n: "Number (split 0x2F (Data_Realizacao (surgeryOn ''ab/03/24'')) ! 0) = NaN"
    unfolding surgeryOn_def by code_simp
  have l: "length (split 0x2F (Data_Realizacao (surgeryOn ''15/03''))) < 3"
    unfolding surgeryOn_def by code_simp
  from grouping_never_fails [of "[surgeryOn ''ab/03/24'', surgeryOn ''15/03'']"] n l group_examples(3)
  show ?thesis by simp
qed

text \<open>
  C2 as stated fails: a record with month 13 is filed under the rolled-over month, and
  records with a non-numeric segment or with two segments are filed under \<open>NaN-NaN\<close>;
  grouping returns its buckets each time.
\<close>

theorem invalid_dates_are_filed:
  "groupSurgeriesByMonth [surgeryOn ''31/13/24''] = [(str ''2025-01'', [surgeryOn ''31/13/24''])]
   \<and> groupSurgeriesByMonth [surgeryOn ''ab/03/24'', surgeryOn ''15/03''] =
       [(str ''NaN-NaN'', [surgeryOn ''ab/03/24'', surgeryOn ''15/03''])]"
  by (simp add: group_examples)

text \<open>
  C7: the sizes of the buckets of \<open>N\<close> records add up to \<open>N\<close>, no key has two buckets,
  and the bucket of a key is the list of the records with that key in the order of the
  input: the input with the other records left out.
\<close>

theorem grouping_keeps_all_in_order:
  "sum_list (map (\<lambda>(k, bucket). length bucket) (groupSurgeriesByMonth surgeries)) = length surgeries
   \<and> distinct (map fst (groupSurgeriesByMonth surgeries))
   \<and> (\<forall>(k, bucket) \<in> set (groupSurgeriesByMonth surgeries).
        bucket = filter (\<lambda>s. monthKey (Data_Realizacao s) = k) surgeries)"
proof (intro conjI ballI)
  show "sum_list (map (\<lambda>(k, bucket). length bucket) (groupSurgeriesByMonth surgeries)) = length surgeries"
    by (rule groupSurgeriesByMonth_size)
  show "distinct (map fst (groupSurgeriesByMonth surgeries))"
    using groupSurgeriesByMonth_buckets [of surgeries] by (rule conjunct1)
  fix x
  assume "x \<in> set (groupSurgeriesByMonth surgeries)"
  with groupSurgeriesByMonth_buckets [of surgeries]
  have "x \<in> (\<lambda>k. (k, filter (\<lambda>r. monthKey (Data_Realizacao r) = k) surgeries))
      ` (\<lambda>r. monthKey (Data_Realizacao r)) ` set surgeries"
    by (simp only:)
  then show "case x of (k, bucket) \<Rightarrow> bucket = filter (\<lambda>s. monthKey (Data_Realizacao s) = k) surgeries"
    by (elim imageE) (simp only: prod.case)
qed

theorem grouping_keeps_all_in_order_witness:
  "groupSurgeriesByMonth [surgeryOn ''15/03/24'', surgeryOn ''10/04/24'', surgeryOn ''20/03/24''] =
     [(str ''2024-03'', [surgeryOn ''15/03/24'', surgeryOn ''20/03/24'']), (str ''2024-04'', [surgeryOn ''10/04/24''])]
   \<and> sum_list (map (\<lambda>(k, bucket). length bucket)
        (groupSurgeriesByMonth [surgeryOn ''15/03/24'', surgeryOn ''10/04/24'', surgeryOn ''20/03/24''])) = 3
   \<and> filter (\<lambda>s. monthKey (Data_Realizacao s) = str ''2024-03'')
        [surgeryOn ''15/03/24'', surgeryOn ''10/04/24'', surgeryOn ''20/03/24'']
      = [surgeryOn ''15/03/24'', surgeryOn ''20/03/24'']"
proof -
  have "Data_Realizacao (surgeryOn ''15/03/24'') = str ''15/03/24''"
    "Data_Realizacao (surgeryOn ''10/04/24'') = str ''10/04/24''"
    "Data_Realizacao (surgeryOn ''20/03/24'') = str ''20/03/24''"
    by (simp_all add: surgeryOn_def)
  then have "filter (\<lambda>s. monthKey (Data_Realizacao s) = str ''2024-03'')
        [surgeryOn ''15/03/24'', surgeryOn ''10/04/24'', surgeryOn ''20/03/24'']
      = [surgeryOn ''15/03/24'', surgeryOn ''20/03/24'']"
    by (simp add: monthKey_examples str_eq_iff)
  moreover note grouping_keeps_all_in_order
    [of "[surgeryOn ''15/03/24'', surgeryOn ''10/04/24'', surgeryOn ''20/03/24'']", THEN conjunct1]
  ultimately show ?thesis
    by (simp only: group_examples(1) list.size length_Cons) simp
qed

text \<open>
  C8: for a valid date \<open>DD/MM/YY\<close> the key is the text of \<open>2000 + YY\<close>, that is \<open>20YY\<close>, a
  hyphen and the two digits \<open>MM\<close> of the month, and every record with that date is in the
  bucket of that key; a record with the date \<open>15/03/24\<close> alone gives the one bucket
  \<open>2024-03\<close>.
\<close>

theorem valid_date_month_key:
  assumes "validDate d1 d2 m1 m2 y1 y2"
  shows "monthKey [d1, d2, 0x2F, m1, m2, 0x2F, y1, y2]
           = toString (Some (2000 + int (twoDigits y1 y2))) @ str ''-'' @ [m1, m2]
    \<and> toString (Some (2000 + int (twoDigits y1 y2))) = str ''20'' @ [y1, y2]
    \<and> (\<forall>surgeries r. r \<in> set surgeries \<and> Data_Realizacao r = [d1, d2, 0x2F, m1, m2, 0x2F, y1, y2] \<longrightarrow>
          (\<exists>bucket. (str ''20'' @ [y1, y2] @ str ''-'' @ [m1, m2], bucket) \<in> set (groupSurgeriesByMonth surgeries)
                     \<and> r \<in> set bucket))
    \<and> groupSurgeriesByMonth [s \<lparr> Data_Realizacao := str ''15/03/24'' \<rparr>]
         = [(str ''2024-03'', [s \<lparr> Data_Realizacao := str ''15/03/24'' \<rparr>])]"
proof (intro conjI allI impI)
  from assms have y: "isDecimalDigit y1" "isDecimalDigit y2"
    by (simp_all add: validDate_def)
  show key: "monthKey [d1, d2, 0x2F, m1, m2, 0x2F, y1, y2]
      = toString (Some (2000 + int (twoDigits y1 y2))) @ str ''-'' @ [m1, m2]"
    by (rule monthKey_valid [OF assms])
  show year: "toString (Some (2000 + int (twoDigits y1 y2))) = str ''20'' @ [y1, y2]"
    by (simp add: year_text [OF y] str_def)
  show "groupSurgeriesByMonth [s \<lparr> Data_Realizacao := str ''15/03/24'' \<rparr>]
         = [(str ''2024-03'', [s \<lparr> Data_Realizacao := str ''15/03/24'' \<rparr>])]"
    by (simp add: groupSurgeriesByMonth_def groupStep_def monthKey_examples(1))
  fix surgeries :: "surgery list" and r :: surgery
  assume r: "r \<in> set surgeries \<and> Data_Realizacao r = [d1, d2, 0x2F, m1, m2, 0x2F, y1, y2]"
  then have "monthKey (Data_Realizacao r) = str ''20'' @ [y1, y2] @ str ''-'' @ [m1, m2]"
    by (simp add: key year)
  with r record_filed [of r surgeries]
  show "\<exists>bucket. (str ''20'' @ [y1, y2] @ str ''-'' @ [m1, m2], bucket) \<in> set (groupSurgeriesByMonth surgeries)
                     \<and> r \<in> set bucket"
    by (intro exI [of _ "filter (\<lambda>s. monthKey (Data_Realizacao s) = monthKey (Data_Realizacao r)) surgeries"])
       simp
qed

theorem valid_date_month_key_witness:
  "validDate 0x31 0x35 0x30 0x33 0x32 0x34
   \<and> monthKey (str ''15/03/24'') = str ''2024-03''
   \<and> toString (Some 2024) = str ''2024''
   \<and> groupSurgeriesByMonth [surgeryOn ''15/03/24''] = [(str ''2024-03'', [surgeryOn ''15/03/24''])]"
proof -
  have v: "validDate 0x31 0x35 0x30 0x33 0x32 0x34"
    by (simp add: validDate_def isDecimalDigit_def twoDigits_def digit_def daysInMonth_def)
  have t: "twoDigits 0x32 0x34 = 24"
    by (simp add: twoDigits_def digit_def)
  from valid_date_month_key [OF v, of geralRecord] t show ?thesis
    by (simp add: v str_def surgeryOn_def)
qed

end
